theory Spec2Isabelle
  imports Complex_Main "HOL-Library.AList" "HOL-Library.Signed_Division"
begin

text \<open>
  A model of the snapshot and transition core of OP-PatchStudio: the musical clock
  (\<open>ClockEngine\<close>), the snapshot store (\<open>SnapshotEngine\<close>), the transition engine
  (\<open>TransitionEngine\<close>) and the parameter registry with its value conversions.  Each method
  of a class is a function that takes the object and returns the object after the call.
\<close>

section \<open>Numbers\<close>

text \<open>
  The program is TypeScript: every number is an IEEE double.  Counters that the code only
  ever assigns integer values (bar, beat, tick accumulator, MIDI values, cycle lengths) are
  modelled as \<^typ>\<open>int\<close>; quantities that the code divides (tempo, milliseconds, progress)
  are modelled as \<^typ>\<open>real\<close>, so rounding error of the double arithmetic is outside the
  model.  \<open>Math.round x\<close> is \<open>\<lfloor>x + 1/2\<rfloor>\<close>, which is \<^const>\<open>round\<close>; \<open>Math.ceil\<close> is
  \<^const>\<open>ceiling\<close>; the remainder operator \<open>%\<close> truncates towards zero, which is \<open>smod\<close>.
\<close>

section \<open>Value conversion utilities (midiUtils / parameter mapping)\<close>

definition bpmToMidiValue :: "real \<Rightarrow> int" where
  "bpmToMidiValue bpm =
     (let minBpm = 40;
          maxBpm = 240;
          clampedBpm = max minBpm (min maxBpm bpm)
      in round (((clampedBpm - minBpm) / (maxBpm - minBpm)) * 127))"

definition midiValueToBpm :: "real \<Rightarrow> real" where
  "midiValueToBpm midiValue =
     (let minBpm = 40;
          maxBpm = 240
      in minBpm + (midiValue / 127) * (maxBpm - minBpm))"

section \<open>Easing and per-frame progress of the Jump interpolation\<close>

definition easeOutCubic :: "real \<Rightarrow> real" where
  "easeOutCubic t = 1 - (1 - t) ^ 3"

text \<open>
  The two lines of the frame callback of \<open>startInterpolationLoop\<close> that compute the
  progress: \<open>elapsed = Date.now() - startTime\<close> and
  \<open>progress = Math.min(elapsed / duration, 1.0)\<close>.
\<close>

definition frameProgress :: "real \<Rightarrow> real \<Rightarrow> real" where
  "frameProgress elapsed duration = min (elapsed / duration) 1"

definition easedProgress :: "real \<Rightarrow> real \<Rightarrow> real" where
  "easedProgress elapsed duration = easeOutCubic (frameProgress elapsed duration)"

text \<open>The formula of the specification, with the clamp on both sides.\<close>

definition easedProgress_spec :: "real \<Rightarrow> real \<Rightarrow> real" where
  "easedProgress_spec elapsed d = 1 - (1 - max 0 (min 1 (elapsed / d))) ^ 3"

section \<open>ClockEngine\<close>

subsection \<open>Types (types.ts)\<close>

datatype ClockSource = internal | midi

text \<open>\<open>QuantizationType = 'none' | 'beat' | 'bar' | '2bar' | '4bar'\<close>.\<close>

datatype QuantizationType = QNone | QBeat | QBar | Q2Bar | Q4Bar

record ClockState =
  isRunning :: bool
  source :: ClockSource
  bpm :: real
  currentBeat :: int
  currentBar :: int
  beatsPerBar :: int
  ppqn :: int
  lastTickTime :: real

datatype ClockEventType = BarEvent | BeatEvent | TickEvent

record ClockEvent =
  event_type :: ClockEventType
  event_bar :: int
  event_beat :: int
  timestamp :: real

subsection \<open>The engine object\<close>

text \<open>
  The private fields of the class.  \<open>intervalId\<close> is the handle of the periodic timer of
  the internal generator: \<open>None\<close> is \<open>null\<close>, and an armed timer is recorded with its
  period in milliseconds.  The listener table is not modelled; instead every event handed to
  \<open>emit\<close> is appended to \<open>emitted\<close>, in order.  \<open>Date.now()\<close> is an argument \<open>now\<close> of
  every method that reads it.
\<close>

record ClockEngine =
  state :: ClockState
  intervalId :: "real option"
  tickCount :: int
  lastBeat :: int
  lastBar :: int
  emitted :: "ClockEvent list"

text \<open>\<open>new ClockEngine()\<close> with no initial state.\<close>

definition ClockEngine_new :: ClockEngine where
  "ClockEngine_new =
     \<lparr> state = \<lparr> isRunning = False, source = internal, bpm = 120, currentBeat = 0,
                 currentBar = 0, beatsPerBar = 4, ppqn = 24, lastTickTime = 0 \<rparr>,
       intervalId = None, tickCount = 0, lastBeat = - 1, lastBar = - 1, emitted = [] \<rparr>"

definition startInternalClock :: "ClockEngine \<Rightarrow> ClockEngine" where
  "startInternalClock e =
     (let msPerBeat = (60 / bpm (state e)) * 1000;
          msPerTick = msPerBeat / of_int (ppqn (state e))
      in e\<lparr>intervalId := Some msPerTick\<rparr>)"

definition stopInternalClock :: "ClockEngine \<Rightarrow> ClockEngine" where
  "stopInternalClock e = (if intervalId e \<noteq> None then e\<lparr>intervalId := None\<rparr> else e)"

definition start :: "ClockEngine \<Rightarrow> real \<Rightarrow> ClockEngine" where
  "start e now =
     (if isRunning (state e) then e
      else
        let e1 = e\<lparr>state := (state e)\<lparr>isRunning := True, lastTickTime := now\<rparr>\<rparr>
        in if source (state e1) = internal then startInternalClock e1 else e1)"

definition stop :: "ClockEngine \<Rightarrow> ClockEngine" where
  "stop e =
     (if \<not> isRunning (state e) then e
      else stopInternalClock (e\<lparr>state := (state e)\<lparr>isRunning := False\<rparr>\<rparr>))"

definition reset :: "ClockEngine \<Rightarrow> ClockEngine" where
  "reset e =
     e\<lparr>state := (state e)\<lparr>currentBeat := 0, currentBar := 0\<rparr>,
       tickCount := 0, lastBeat := - 1, lastBar := - 1\<rparr>"

definition emit :: "ClockEngine \<Rightarrow> ClockEvent \<Rightarrow> ClockEngine" where
  "emit e ev = e\<lparr>emitted := emitted e @ [ev]\<rparr>"

definition advanceBeat :: "ClockEngine \<Rightarrow> real \<Rightarrow> ClockEngine" where
  "advanceBeat e now =
     (let e1 = e\<lparr>state := (state e)\<lparr>currentBeat := currentBeat (state e) + 1\<rparr>\<rparr>;
          e2 = (if currentBeat (state e1) \<ge> beatsPerBar (state e1) then
                  let e3 = e1\<lparr>state := (state e1)\<lparr>currentBeat := 0,
                                                    currentBar := currentBar (state e1) + 1\<rparr>\<rparr>;
                      e4 = emit e3 \<lparr> event_type = BarEvent, event_bar = currentBar (state e3),
                                      event_beat = currentBeat (state e3), timestamp = now \<rparr>
                  in e4\<lparr>lastBar := currentBar (state e4)\<rparr>
                else e1)
      in if lastBeat e2 \<noteq> currentBeat (state e2) then
           let e5 = emit e2 \<lparr> event_type = BeatEvent, event_bar = currentBar (state e2),
                               event_beat = currentBeat (state e2), timestamp = now \<rparr>
           in e5\<lparr>lastBeat := currentBeat (state e5)\<rparr>
         else e2)"

definition processMidiClockTick :: "ClockEngine \<Rightarrow> real \<Rightarrow> ClockEngine" where
  "processMidiClockTick e now =
     (if source (state e) \<noteq> midi then e
      else
        let e1 = e\<lparr>state := (state e)\<lparr>lastTickTime := now\<rparr>\<rparr>;
            e2 = e1\<lparr>tickCount := tickCount e1 + 1\<rparr>;
            e3 = (if tickCount e2 \<ge> ppqn (state e2)
                  then advanceBeat (e2\<lparr>tickCount := 0\<rparr>) now
                  else e2)
        in emit e3 \<lparr> event_type = TickEvent, event_bar = currentBar (state e3),
                      event_beat = currentBeat (state e3), timestamp = now \<rparr>)"

definition processMidiStart :: "ClockEngine \<Rightarrow> real \<Rightarrow> ClockEngine" where
  "processMidiStart e now = start (reset e) now"

definition processMidiStop :: "ClockEngine \<Rightarrow> ClockEngine" where
  "processMidiStop e = stop e"

definition processMidiContinue :: "ClockEngine \<Rightarrow> real \<Rightarrow> ClockEngine" where
  "processMidiContinue e now = start e now"

definition setClockSource :: "ClockEngine \<Rightarrow> ClockSource \<Rightarrow> real \<Rightarrow> ClockEngine" where
  "setClockSource e src now =
     (let wasRunning = isRunning (state e);
          e1 = (if wasRunning then stop e else e);
          e2 = e1\<lparr>state := (state e1)\<lparr>source := src\<rparr>\<rparr>
      in if wasRunning then start e2 now else e2)"

definition setBpm :: "ClockEngine \<Rightarrow> real \<Rightarrow> ClockEngine" where
  "setBpm e b =
     (let e1 = e\<lparr>state := (state e)\<lparr>bpm := max 20 (min 300 b)\<rparr>\<rparr>
      in if isRunning (state e1) \<and> source (state e1) = internal
         then startInternalClock (stopInternalClock e1)
         else e1)"

definition getState :: "ClockEngine \<Rightarrow> ClockState" where
  "getState e = state e"

text \<open>
  The \<open>switch\<close> has no \<open>default\<close>: for a value outside the four cases (the type cast in
  \<open>scheduleQuantizedJump\<close> admits \<open>'none'\<close>) \<open>beatsToWait\<close> keeps its initial value \<open>0\<close>.
\<close>

definition getTimeUntilNextQuantization :: "ClockEngine \<Rightarrow> QuantizationType \<Rightarrow> real" where
  "getTimeUntilNextQuantization e quantization =
     (let msPerBeat = (60 / bpm (state e)) * 1000;
          beatsToWait =
            (case quantization of
               QBeat \<Rightarrow> 1
             | QBar \<Rightarrow> beatsPerBar (state e) - currentBeat (state e)
             | Q2Bar \<Rightarrow>
                 (let beatsIn2Bars = beatsPerBar (state e) * 2;
                      currentBeatIn2BarCycle =
                        (currentBar (state e) smod 2) * beatsPerBar (state e)
                          + currentBeat (state e)
                  in beatsIn2Bars - currentBeatIn2BarCycle)
             | Q4Bar \<Rightarrow>
                 (let beatsIn4Bars = beatsPerBar (state e) * 4;
                      currentBeatIn4BarCycle =
                        (currentBar (state e) smod 4) * beatsPerBar (state e)
                          + currentBeat (state e)
                  in beatsIn4Bars - currentBeatIn4BarCycle)
             | QNone \<Rightarrow> 0)
      in of_int beatsToWait * msPerBeat)"

definition getTimeUntilBar :: "ClockEngine \<Rightarrow> int \<Rightarrow> real" where
  "getTimeUntilBar e targetBar =
     (if targetBar \<le> currentBar (state e) then 0
      else
        let barsToWait = targetBar - currentBar (state e);
            beatsToWait = barsToWait * beatsPerBar (state e) - currentBeat (state e);
            msPerBeat = (60 / bpm (state e)) * 1000
        in of_int beatsToWait * msPerBeat)"

definition getNextCycleBar :: "ClockEngine \<Rightarrow> int \<Rightarrow> int" where
  "getNextCycleBar e cycleLengthBars =
     (let currentBar = currentBar (state e);
          nextCycleStart =
            \<lceil>real_of_int (currentBar + 1) / real_of_int cycleLengthBars\<rceil> * cycleLengthBars
      in nextCycleStart)"

subsection \<open>Sequences of clock operations\<close>

text \<open>
  The operations a client, the MIDI input port and the engine's own interval timer can
  perform on a clock.  \<open>InternalTimerFires\<close> is the callback that \<open>startInternalClock\<close>
  hands to \<open>setInterval\<close>: it runs only while the timer is armed and calls
  \<open>processMidiClockTick\<close>.
\<close>

datatype ClockOp =
    Start real
  | Stop
  | Reset
  | SetBpm real
  | SetClockSource ClockSource real
  | MidiClockTick real
  | MidiStart real
  | MidiStop
  | MidiContinue real
  | InternalTimerFires real

fun clockStep :: "ClockEngine \<Rightarrow> ClockOp \<Rightarrow> ClockEngine" where
  "clockStep e (Start now) = start e now"
| "clockStep e Stop = stop e"
| "clockStep e Reset = reset e"
| "clockStep e (SetBpm b) = setBpm e b"
| "clockStep e (SetClockSource src now) = setClockSource e src now"
| "clockStep e (MidiClockTick now) = processMidiClockTick e now"
| "clockStep e (MidiStart now) = processMidiStart e now"
| "clockStep e MidiStop = processMidiStop e"
| "clockStep e (MidiContinue now) = processMidiContinue e now"
| "clockStep e (InternalTimerFires now) =
     (if intervalId e \<noteq> None then processMidiClockTick e now else e)"

definition runClock :: "ClockOp list \<Rightarrow> ClockEngine" where
  "runClock ops = foldl clockStep ClockEngine_new ops"

subsection \<open>Notions of the specification used to state the clock claims\<close>

text \<open>
  The length of one period of a quantization kind at the current tempo: one beat, one bar,
  two bars, four bars.
\<close>

definition periodBeats :: "ClockEngine \<Rightarrow> QuantizationType \<Rightarrow> int" where
  "periodBeats e q =
     (case q of
        QNone \<Rightarrow> 0
      | QBeat \<Rightarrow> 1
      | QBar \<Rightarrow> beatsPerBar (state e)
      | Q2Bar \<Rightarrow> 2 * beatsPerBar (state e)
      | Q4Bar \<Rightarrow> 4 * beatsPerBar (state e))"

definition periodMs :: "ClockEngine \<Rightarrow> QuantizationType \<Rightarrow> real" where
  "periodMs e q = of_int (periodBeats e q) * (60000 / bpm (state e))"

text \<open>
  Being on a boundary of a kind, read off the position \<open>(bar, beat, tick accumulator)\<close>:
  the first tick of a beat; of a bar; of a bar whose index is a multiple of two; of four.
\<close>

definition onBoundary :: "ClockEngine \<Rightarrow> QuantizationType \<Rightarrow> bool" where
  "onBoundary e q =
     (case q of
        QNone \<Rightarrow> True
      | QBeat \<Rightarrow> tickCount e = 0
      | QBar \<Rightarrow> tickCount e = 0 \<and> currentBeat (state e) = 0
      | Q2Bar \<Rightarrow> tickCount e = 0 \<and> currentBeat (state e) = 0 \<and> currentBar (state e) mod 2 = 0
      | Q4Bar \<Rightarrow> tickCount e = 0 \<and> currentBeat (state e) = 0 \<and> currentBar (state e) mod 4 = 0)"

text \<open>The same at the resolution of whole beats, which is all the query reads.\<close>

definition onBeatGridBoundary :: "ClockEngine \<Rightarrow> QuantizationType \<Rightarrow> bool" where
  "onBeatGridBoundary e q =
     (case q of
        QNone \<Rightarrow> True
      | QBeat \<Rightarrow> True
      | QBar \<Rightarrow> currentBeat (state e) = 0
      | Q2Bar \<Rightarrow> currentBeat (state e) = 0 \<and> currentBar (state e) mod 2 = 0
      | Q4Bar \<Rightarrow> currentBeat (state e) = 0 \<and> currentBar (state e) mod 4 = 0)"

text \<open>The ranges of the clock state in the data model of the specification.\<close>

definition clockInv :: "ClockEngine \<Rightarrow> bool" where
  "clockInv e \<longleftrightarrow>
     0 \<le> currentBeat (state e) \<and> currentBeat (state e) < beatsPerBar (state e)
     \<and> 0 \<le> currentBar (state e)
     \<and> 0 \<le> tickCount e \<and> tickCount e < ppqn (state e)"

text \<open>The position counted in ticks from bar 0, beat 0.\<close>

definition tickPosition :: "ClockEngine \<Rightarrow> int" where
  "tickPosition e =
     (currentBar (state e) * beatsPerBar (state e) + currentBeat (state e)) * ppqn (state e)
       + tickCount e"

section \<open>MIDI messages and the parameter registry (types.ts)\<close>

text \<open>\<open>MIDIMessageType = 'cc' | 'pc' | 'note' | 'nrpn'\<close>.\<close>

datatype MIDIMessageType = CC | PC | Note | NRPN

text \<open>
  Optional fields of the interfaces are \<^typ>\<open>'a option\<close>, \<open>None\<close> for an absent field.  The
  fields \<open>type\<close>, \<open>value\<close> and \<open>note\<close> of the source are written \<open>msg_type\<close>, \<open>msg_value\<close>
  and \<open>note_number\<close>.
\<close>

record MIDIMessage =
  msg_type :: MIDIMessageType
  channel :: int
  msg_value :: int
  cc :: "int option"
  note_number :: "int option"
  velocity :: "int option"
  nrpnMsb :: "int option"
  nrpnLsb :: "int option"

datatype Category = scene | tempo | track | groove | transport

record OpxyParameter =
  param_id :: string
  param_name :: string
  param_type :: MIDIMessageType
  param_channel :: int
  param_cc :: "int option"
  minValue :: int
  maxValue :: int
  defaultValue :: int
  description :: string
  category :: Category

definition OPXY_PARAMETERS :: "(string \<times> OpxyParameter) list" where
  "OPXY_PARAMETERS =
     [ (''DELAYED_SCENE'',
        \<lparr> param_id = ''delayed_scene'', param_name = ''Delayed Scene'', param_type = CC,
          param_channel = 1, param_cc = Some 82, minValue = 0, maxValue = 127,
          defaultValue = 0, description = ''Trigger scene change at end of bar'',
          category = scene \<rparr>),
       (''PREV_SCENE'',
        \<lparr> param_id = ''prev_scene'', param_name = ''Previous Scene'', param_type = CC,
          param_channel = 1, param_cc = Some 83, minValue = 0, maxValue = 127,
          defaultValue = 0, description = ''Jump to previous scene'', category = scene \<rparr>),
       (''NEXT_SCENE'',
        \<lparr> param_id = ''next_scene'', param_name = ''Next Scene'', param_type = CC,
          param_channel = 1, param_cc = Some 84, minValue = 0, maxValue = 127,
          defaultValue = 0, description = ''Jump to next scene'', category = scene \<rparr>),
       (''SCENE_DIRECT'',
        \<lparr> param_id = ''scene_direct'', param_name = ''Scene Direct'', param_type = CC,
          param_channel = 1, param_cc = Some 85, minValue = 0, maxValue = 127,
          defaultValue = 0, description = ''Jump directly to scene (0-127)'',
          category = scene \<rparr>),
       (''TEMPO'',
        \<lparr> param_id = ''tempo'', param_name = ''Tempo'', param_type = CC,
          param_channel = 1, param_cc = Some 80, minValue = 0, maxValue = 127,
          defaultValue = 64, description = ''Master tempo control'', category = tempo \<rparr>),
       (''GROOVE'',
        \<lparr> param_id = ''groove'', param_name = ''Groove'', param_type = CC,
          param_channel = 1, param_cc = Some 81, minValue = 0, maxValue = 127,
          defaultValue = 64, description = ''Groove amount'', category = groove \<rparr>) ]"

text \<open>The decimal digits of a track number, for the template strings.\<close>

fun decimal :: "nat \<Rightarrow> string" where
  "decimal n =
     (if n < 10 then [''0123456789'' ! n]
      else decimal (n div 10) @ [''0123456789'' ! (n mod 10)])"

definition trackParametersOf :: "nat \<Rightarrow> (string \<times> OpxyParameter) list" where
  "trackParametersOf i =
     [ (''TRACK_'' @ decimal i @ ''_VOLUME'',
        \<lparr> param_id = ''track_'' @ decimal i @ ''_volume'',
          param_name = ''Track '' @ decimal i @ '' Volume'', param_type = CC,
          param_channel = int i, param_cc = Some 7, minValue = 0, maxValue = 127,
          defaultValue = 100, description = ''Volume for track '' @ decimal i,
          category = track \<rparr>),
       (''TRACK_'' @ decimal i @ ''_MUTE'',
        \<lparr> param_id = ''track_'' @ decimal i @ ''_mute'',
          param_name = ''Track '' @ decimal i @ '' Mute'', param_type = CC,
          param_channel = int i, param_cc = Some 9, minValue = 0, maxValue = 127,
          defaultValue = 0, description = ''Mute track '' @ decimal i, category = track \<rparr>),
       (''TRACK_'' @ decimal i @ ''_PAN'',
        \<lparr> param_id = ''track_'' @ decimal i @ ''_pan'',
          param_name = ''Track '' @ decimal i @ '' Pan'', param_type = CC,
          param_channel = int i, param_cc = Some 10, minValue = 0, maxValue = 127,
          defaultValue = 64, description = ''Pan for track '' @ decimal i,
          category = track \<rparr>) ]"

text \<open>The loop \<open>for (let i = 1; i <= 16; i++)\<close>.\<close>

definition generateTrackParameters :: "(string \<times> OpxyParameter) list" where
  "generateTrackParameters = concat (map trackParametersOf [1 ..< 17])"

text \<open>
  \<open>{ ...OPXY_PARAMETERS, ...generateTrackParameters() }\<close>: a key of the second object
  overrides the same key of the first.
\<close>

definition allParams :: "string \<Rightarrow> OpxyParameter option" where
  "allParams = map_of OPXY_PARAMETERS ++ map_of generateTrackParameters"

text \<open>
  \<open>String.prototype.toUpperCase\<close> on the ASCII letters.  Characters outside ASCII are left
  as they are, so identifiers with such characters are outside the model.
\<close>

definition upperChar :: "char \<Rightarrow> char" where
  "upperChar c =
     (let n = (of_char c :: nat) in if 97 \<le> n \<and> n \<le> 122 then char_of (n - 32) else c)"

definition toUpperCase :: "string \<Rightarrow> string" where
  "toUpperCase s = map upperChar s"

section \<open>SnapshotEngine\<close>

text \<open>The field \<open>value\<close> of a snapshot parameter is written \<open>param_value\<close>.\<close>

record SnapshotParameter =
  parameterId :: string
  param_value :: int
  isEnabled :: bool

text \<open>The fields \<open>id\<close> and \<open>name\<close> are written \<open>snapshot_id\<close> and \<open>snapshot_name\<close>.\<close>

record Snapshot =
  snapshot_id :: string
  snapshot_name :: string
  bank :: int
  slot :: int
  parameters :: "SnapshotParameter list"
  oneShotMessages :: "MIDIMessage list option"
  color :: "string option"
  createdAt :: real
  modifiedAt :: real

text \<open>
  The two private \<open>Map\<close>s.  A JavaScript \<open>Map\<close> keeps its keys in insertion order, and
  \<open>forEach\<close> visits them in that order, so a \<open>Map\<close> is an association list with distinct
  keys: \<open>get\<close> is \<^const>\<open>map_of\<close>, \<open>set\<close> is \<^const>\<open>AList.update\<close> (in place for a key
  that is present, at the end otherwise) and \<open>delete\<close> is \<^const>\<open>AList.delete\<close>.

  Objects are modelled by value.  The snapshot objects that the transition engine is handed
  are only read for their \<open>id\<close>, which no method changes.
\<close>

record SnapshotEngine =
  snapshots :: "(string \<times> Snapshot) list"
  currentValues :: "(string \<times> int) list"

definition initializeDefaultValues :: "SnapshotEngine \<Rightarrow> SnapshotEngine" where
  "initializeDefaultValues se =
     (let cleared = se\<lparr>currentValues := []\<rparr>;
          se1 = foldl (\<lambda>s param. s\<lparr>currentValues :=
                         AList.update (param_id param) (defaultValue param) (currentValues s)\<rparr>)
                  cleared (map snd OPXY_PARAMETERS);
          trackParams = generateTrackParameters
      in foldl (\<lambda>s param. s\<lparr>currentValues :=
                   AList.update (param_id param) (defaultValue param) (currentValues s)\<rparr>)
           se1 (map snd trackParams))"

definition SnapshotEngine_new :: SnapshotEngine where
  "SnapshotEngine_new = initializeDefaultValues \<lparr> snapshots = [], currentValues = [] \<rparr>"

text \<open>Decimal notation of an integer, for the default name \<open>`Snapshot ${bank}-${slot}`\<close>.\<close>

definition showInt :: "int \<Rightarrow> string" where
  "showInt i = (if i < 0 then ''-'' @ decimal (nat (- i)) else decimal (nat i))"

text \<open>
  \<open>uuidv4()\<close> and \<open>Date.now()\<close> are arguments: \<open>uid\<close> is the identifier that the generator
  returns in this call, \<open>now\<close> the time.  The optional \<open>name\<close> is an \<open>option\<close>.
\<close>

definition createSnapshot ::
  "SnapshotEngine \<Rightarrow> int \<Rightarrow> int \<Rightarrow> string option \<Rightarrow> string \<Rightarrow> real
     \<Rightarrow> SnapshotEngine \<times> Snapshot" where
  "createSnapshot se bnk slt name uid now =
     (let snapshot =
            \<lparr> snapshot_id = uid,
              snapshot_name =
                (case name of
                   Some n \<Rightarrow> n
                 | None \<Rightarrow> ''Snapshot '' @ showInt bnk @ ''-'' @ showInt slt),
              bank = bnk, slot = slt, parameters = [], oneShotMessages = Some [],
              color = None, createdAt = now, modifiedAt = now \<rparr>
      in (se\<lparr>snapshots := AList.update uid snapshot (snapshots se)\<rparr>, snapshot))"

definition getSnapshot :: "SnapshotEngine \<Rightarrow> string \<Rightarrow> Snapshot option" where
  "getSnapshot se sid = map_of (snapshots se) sid"

definition deleteSnapshot :: "SnapshotEngine \<Rightarrow> string \<Rightarrow> SnapshotEngine \<times> bool" where
  "deleteSnapshot se sid =
     (se\<lparr>snapshots := AList.delete sid (snapshots se)\<rparr>, sid \<in> fst ` set (snapshots se))"

definition loadSnapshots :: "SnapshotEngine \<Rightarrow> Snapshot list \<Rightarrow> SnapshotEngine" where
  "loadSnapshots se snaps =
     foldl (\<lambda>s snapshot. s\<lparr>snapshots :=
              AList.update (snapshot_id snapshot) snapshot (snapshots s)\<rparr>)
       (se\<lparr>snapshots := []\<rparr>) snaps"

text \<open>\<open>Array.prototype.findIndex\<close>: the first index whose element satisfies \<open>P\<close>, or \<open>-1\<close>.\<close>

fun findIndex :: "('a \<Rightarrow> bool) \<Rightarrow> 'a list \<Rightarrow> int" where
  "findIndex P [] = - 1"
| "findIndex P (x # xs) =
     (if P x then 0 else (let r = findIndex P xs in if r < 0 then - 1 else r + 1))"

text \<open>
  The method mutates the stored snapshot object in place; in the \<open>Map\<close> this is a new value
  under the same key, in the same position.
\<close>

definition updateSnapshotParameter ::
  "SnapshotEngine \<Rightarrow> string \<Rightarrow> string \<Rightarrow> int \<Rightarrow> bool \<Rightarrow> real \<Rightarrow> SnapshotEngine \<times> bool" where
  "updateSnapshotParameter se snapshotId pid v enabled now =
     (case map_of (snapshots se) snapshotId of
        None \<Rightarrow> (se, False)
      | Some snapshot \<Rightarrow>
          let existingIndex = findIndex (\<lambda>p. parameterId p = pid) (parameters snapshot);
              entry = \<lparr> parameterId = pid, param_value = max 0 (min 127 v),
                        isEnabled = enabled \<rparr>;
              params =
                (if existingIndex \<ge> 0
                 then (parameters snapshot)[nat existingIndex := entry]
                 else parameters snapshot @ [entry]);
              snapshot1 = snapshot\<lparr>parameters := params, modifiedAt := now\<rparr>
          in (se\<lparr>snapshots := AList.update snapshotId snapshot1 (snapshots se)\<rparr>, True))"

definition updateCurrentValue :: "SnapshotEngine \<Rightarrow> string \<Rightarrow> int \<Rightarrow> SnapshotEngine" where
  "updateCurrentValue se pid v =
     se\<lparr>currentValues := AList.update pid (max 0 (min 127 v)) (currentValues se)\<rparr>"

definition getCurrentValue :: "SnapshotEngine \<Rightarrow> string \<Rightarrow> int option" where
  "getCurrentValue se pid = map_of (currentValues se) pid"

definition parameterToMidiMessage :: "string \<Rightarrow> int \<Rightarrow> MIDIMessage option" where
  "parameterToMidiMessage pid v =
     (case allParams (toUpperCase pid) of
        None \<Rightarrow> None
      | Some paramDef \<Rightarrow>
          Some \<lparr> msg_type = param_type paramDef, channel = param_channel paramDef,
                 msg_value = v, cc = param_cc paramDef, note_number = None, velocity = None,
                 nrpnMsb = None, nrpnLsb = None \<rparr>)"

text \<open>The body of the \<open>forEach\<close> over the parameters in \<open>getSnapshotMidiMessages\<close>.\<close>

definition pushParameterMessage :: "MIDIMessage list \<Rightarrow> SnapshotParameter \<Rightarrow> MIDIMessage list" where
  "pushParameterMessage messages param =
     (if \<not> isEnabled param then messages
      else
        case parameterToMidiMessage (parameterId param) (param_value param) of
          Some midiMessage \<Rightarrow> messages @ [midiMessage]
        | None \<Rightarrow> messages)"

definition getSnapshotMidiMessages :: "SnapshotEngine \<Rightarrow> string \<Rightarrow> MIDIMessage list" where
  "getSnapshotMidiMessages se snapshotId =
     (case map_of (snapshots se) snapshotId of
        None \<Rightarrow> []
      | Some snapshot \<Rightarrow>
          let messages = foldl pushParameterMessage [] (parameters snapshot)
          in case oneShotMessages snapshot of
               Some oneShots \<Rightarrow> messages @ oneShots
             | None \<Rightarrow> messages)"

text \<open>The body of the \<open>forEach\<close> in \<open>getInterpolationTargets\<close>.\<close>

definition setTarget :: "(string \<times> int) list \<Rightarrow> SnapshotParameter \<Rightarrow> (string \<times> int) list" where
  "setTarget targets param =
     (if isEnabled param
      then AList.update (parameterId param) (param_value param) targets
      else targets)"

definition getInterpolationTargets :: "SnapshotEngine \<Rightarrow> string \<Rightarrow> (string \<times> int) list" where
  "getInterpolationTargets se snapshotId =
     (case map_of (snapshots se) snapshotId of
        None \<Rightarrow> []
      | Some snapshot \<Rightarrow> foldl setTarget [] (parameters snapshot))"

section \<open>TransitionEngine\<close>

subsection \<open>Types (types.ts)\<close>

text \<open>\<open>TransitionMode = 'jump' | 'drop'\<close>.\<close>

datatype TransitionMode = JumpMode | DropMode

record TransitionSettings =
  settings_mode :: TransitionMode
  fadeTimeMs :: real
  quantization :: QuantizationType
  cycleLengthBars :: int
  clockSource :: ClockSource
  internalBpm :: real
  repeatMode :: bool

record ScheduledTransition =
  scheduled_snapshot :: Snapshot
  scheduled_mode :: TransitionMode
  targetBar :: "int option"
  targetBeat :: "int option"
  scheduledAt :: real
  executeAt :: real

record InterpolationState =
  active :: bool
  interpolation_snapshot :: Snapshot
  startValues :: "(string \<times> int) list"
  targetValues :: "(string \<times> int) list"
  startTime :: real
  duration_ms :: real
  parametersToInterpolate :: "string list"

subsection \<open>The engine object and the host timers\<close>

text \<open>
  The closures that the engine hands to \<open>setTimeout\<close>, with the values they capture: the
  one of \<open>scheduleQuantizedJump\<close> captures the snapshot and \<open>settings.fadeTimeMs\<close>, the one of
  \<open>executeDrop\<close> the snapshot and \<open>settings.repeatMode\<close>.
\<close>

datatype TimeoutCallback =
    JumpCallback Snapshot real
  | DropCallback Snapshot bool

text \<open>
  The fields of the class, followed by the part of the host the engine acts on.
  \<^item> A registered callback is a flag: \<open>False\<close> is \<open>null\<close>.  What a callback receives is
    appended to a log: \<open>sink\<close> holds the messages delivered to the \<open>midiSendCallback\<close>,
    \<open>completions\<close> the snapshots handed to the \<open>transitionCompleteCallback\<close>,
    \<open>interpolationUpdates\<close> the states handed to the \<open>interpolationUpdateCallback\<close>.
    Callbacks do not call back into the engines.
  \<^item> \<open>timeouts\<close> are the pending one-shot timers (handle, closure and delay), \<open>intervals\<close>
    the handles of the pending periodic timers, which all run the frame callback of
    \<open>startInterpolationLoop\<close>; \<open>nextTimerId\<close> is the next handle the host gives out.
  The clock and the snapshot engine are the objects the constructor receives.
\<close>

record TransitionEngine =
  clockEngine :: ClockEngine
  snapshotEngine :: SnapshotEngine
  scheduledTransition :: "ScheduledTransition option"
  interpolationState :: "InterpolationState option"
  interpolationTimerId :: "nat option"
  transitionTimerId :: "nat option"
  midiSendCallback :: bool
  interpolationUpdateCallback :: bool
  transitionCompleteCallback :: bool
  timeouts :: "(nat \<times> TimeoutCallback \<times> real) list"
  intervals :: "nat list"
  nextTimerId :: nat
  sink :: "MIDIMessage list"
  completions :: "Snapshot list"
  interpolationUpdates :: "InterpolationState list"

definition TransitionEngine_new :: "ClockEngine \<Rightarrow> SnapshotEngine \<Rightarrow> TransitionEngine" where
  "TransitionEngine_new ce se =
     \<lparr> clockEngine = ce, snapshotEngine = se, scheduledTransition = None,
       interpolationState = None, interpolationTimerId = None, transitionTimerId = None,
       midiSendCallback = False, interpolationUpdateCallback = False,
       transitionCompleteCallback = False, timeouts = [], intervals = [], nextTimerId = 0,
       sink = [], completions = [], interpolationUpdates = [] \<rparr>"

definition onMidiSend :: "TransitionEngine \<Rightarrow> TransitionEngine" where
  "onMidiSend te = te\<lparr>midiSendCallback := True\<rparr>"

definition onInterpolationUpdate :: "TransitionEngine \<Rightarrow> TransitionEngine" where
  "onInterpolationUpdate te = te\<lparr>interpolationUpdateCallback := True\<rparr>"

definition onTransitionComplete :: "TransitionEngine \<Rightarrow> TransitionEngine" where
  "onTransitionComplete te = te\<lparr>transitionCompleteCallback := True\<rparr>"

definition setTimeout ::
  "TransitionEngine \<Rightarrow> TimeoutCallback \<Rightarrow> real \<Rightarrow> TransitionEngine \<times> nat" where
  "setTimeout te callback delayMs =
     (te\<lparr>timeouts := timeouts te @ [(nextTimerId te, callback, delayMs)],
         nextTimerId := nextTimerId te + 1\<rparr>,
      nextTimerId te)"

definition clearTimeout :: "TransitionEngine \<Rightarrow> nat \<Rightarrow> TransitionEngine" where
  "clearTimeout te timerId = te\<lparr>timeouts := AList.delete timerId (timeouts te)\<rparr>"

definition setInterval :: "TransitionEngine \<Rightarrow> TransitionEngine \<times> nat" where
  "setInterval te =
     (te\<lparr>intervals := intervals te @ [nextTimerId te], nextTimerId := nextTimerId te + 1\<rparr>,
      nextTimerId te)"

definition clearInterval :: "TransitionEngine \<Rightarrow> nat \<Rightarrow> TransitionEngine" where
  "clearInterval te timerId = te\<lparr>intervals := removeAll timerId (intervals te)\<rparr>"

subsection \<open>MIDI output\<close>

definition sendMidiMessage :: "TransitionEngine \<Rightarrow> MIDIMessage \<Rightarrow> TransitionEngine" where
  "sendMidiMessage te message =
     (if midiSendCallback te then te\<lparr>sink := sink te @ [message]\<rparr> else te)"

definition sendParameterValue ::
  "TransitionEngine \<Rightarrow> string \<Rightarrow> int \<Rightarrow> string \<Rightarrow> real \<Rightarrow> TransitionEngine" where
  "sendParameterValue te pid v uid now =
     (let (se1, snapshot) = createSnapshot (snapshotEngine te) 0 0 (Some ''temp'') uid now;
          (se2, updated) = updateSnapshotParameter se1 (snapshot_id snapshot) pid v True now;
          messages = getSnapshotMidiMessages se2 (snapshot_id snapshot);
          te1 = te\<lparr>snapshotEngine := se2\<rparr>;
          te2 = (if length messages > 0 \<and> midiSendCallback te1
                 then te1\<lparr>sink := sink te1 @ [hd messages]\<rparr>
                 else te1);
          (se3, deleted) = deleteSnapshot (snapshotEngine te2) (snapshot_id snapshot)
      in te2\<lparr>snapshotEngine := se3\<rparr>)"

subsection \<open>Transition management\<close>

definition stopInterpolationLoop :: "TransitionEngine \<Rightarrow> TransitionEngine" where
  "stopInterpolationLoop te =
     (case interpolationTimerId te of
        Some timerId \<Rightarrow> (clearInterval te timerId)\<lparr>interpolationTimerId := None\<rparr>
      | None \<Rightarrow> te)"

text \<open>
  The last step sets \<open>active = false\<close> on the interpolation state object and then drops the
  reference to it.
\<close>

definition cancelActiveTransition :: "TransitionEngine \<Rightarrow> TransitionEngine" where
  "cancelActiveTransition te =
     (let te1 = (case transitionTimerId te of
                   Some timerId \<Rightarrow> (clearTimeout te timerId)\<lparr>transitionTimerId := None\<rparr>
                 | None \<Rightarrow> te);
          te2 = te1\<lparr>scheduledTransition := None\<rparr>;
          te3 = stopInterpolationLoop te2
      in case interpolationState te3 of
           Some st \<Rightarrow>
             (te3\<lparr>interpolationState := Some (st\<lparr>active := False\<rparr>)\<rparr>)
               \<lparr>interpolationState := None\<rparr>
         | None \<Rightarrow> te3)"

definition getScheduledTransition :: "TransitionEngine \<Rightarrow> ScheduledTransition option" where
  "getScheduledTransition te = scheduledTransition te"

definition getInterpolationState :: "TransitionEngine \<Rightarrow> InterpolationState option" where
  "getInterpolationState te = interpolationState te"

text \<open>\<open>this.interpolationState?.active === true\<close> is false when the state is \<open>null\<close>.\<close>

definition isTransitionActive :: "TransitionEngine \<Rightarrow> bool" where
  "isTransitionActive te \<longleftrightarrow>
     scheduledTransition te \<noteq> None
     \<or> (case interpolationState te of Some st \<Rightarrow> active st | None \<Rightarrow> False)"

subsection \<open>Jump mode\<close>

definition calculateTargetBeat :: "QuantizationType \<Rightarrow> ClockState \<Rightarrow> int" where
  "calculateTargetBeat q clockState =
     (case q of
        QBeat \<Rightarrow> currentBeat clockState + 1
      | QBar \<Rightarrow> 0
      | Q2Bar \<Rightarrow> 0
      | Q4Bar \<Rightarrow> 0
      | QNone \<Rightarrow> currentBeat clockState)"

definition startInterpolationLoop :: "TransitionEngine \<Rightarrow> TransitionEngine" where
  "startInterpolationLoop te =
     (let (te1, timerId) = setInterval te in te1\<lparr>interpolationTimerId := Some timerId\<rparr>)"

text \<open>
  The body of \<open>targetValues.forEach\<close> in \<open>startJumpInterpolation\<close>, on the pair of the
  start-value map and the list of parameters to interpolate.
\<close>

definition collectStart ::
  "SnapshotEngine \<Rightarrow> (string \<times> int) list \<times> string list \<Rightarrow> string \<times> int
     \<Rightarrow> (string \<times> int) list \<times> string list" where
  "collectStart se acc target =
     (let currentValue = (case getCurrentValue se (fst target) of
                            Some v \<Rightarrow> v
                          | None \<Rightarrow> snd target)
      in (AList.update (fst target) currentValue (fst acc), snd acc @ [fst target]))"

definition startJumpInterpolation ::
  "TransitionEngine \<Rightarrow> Snapshot \<Rightarrow> real \<Rightarrow> real \<Rightarrow> TransitionEngine" where
  "startJumpInterpolation te snapshot fadeMs now =
     (let targets = getInterpolationTargets (snapshotEngine te) (snapshot_id snapshot)
      in if length targets = 0 then te
         else
           let (starts, ids) = foldl (collectStart (snapshotEngine te)) ([], []) targets;
               st = \<lparr> active = True, interpolation_snapshot = snapshot, startValues = starts,
                      targetValues = targets, startTime = now, duration_ms = fadeMs,
                      parametersToInterpolate = ids \<rparr>;
               te1 = te\<lparr>interpolationState := Some st\<rparr>;
               te2 = (if interpolationUpdateCallback te1
                      then te1\<lparr>interpolationUpdates := interpolationUpdates te1 @ [st]\<rparr>
                      else te1)
           in startInterpolationLoop te2)"

definition scheduleQuantizedJump ::
  "TransitionEngine \<Rightarrow> Snapshot \<Rightarrow> TransitionSettings \<Rightarrow> real \<Rightarrow> TransitionEngine" where
  "scheduleQuantizedJump te snapshot settings now =
     (let delayMs = getTimeUntilNextQuantization (clockEngine te) (quantization settings);
          clockState = getState (clockEngine te);
          beat = calculateTargetBeat (quantization settings) clockState;
          te1 = te\<lparr>scheduledTransition :=
                     Some \<lparr> scheduled_snapshot = snapshot, scheduled_mode = JumpMode,
                            targetBar = None, targetBeat = Some beat, scheduledAt = now,
                            executeAt = now + delayMs \<rparr>\<rparr>;
          (te2, timerId) = setTimeout te1 (JumpCallback snapshot (fadeTimeMs settings)) delayMs
      in te2\<lparr>transitionTimerId := Some timerId\<rparr>)"

definition executeJump ::
  "TransitionEngine \<Rightarrow> Snapshot \<Rightarrow> TransitionSettings \<Rightarrow> real \<Rightarrow> TransitionEngine" where
  "executeJump te snapshot settings now =
     (let te1 = cancelActiveTransition te
      in if quantization settings = QNone
         then startJumpInterpolation te1 snapshot (fadeTimeMs settings) now
         else scheduleQuantizedJump te1 snapshot settings now)"

text \<open>
  One parameter of one frame: interpolate, send, update the current value.  \<open>uid\<close> is the
  identifier that \<open>uuidv4()\<close> returns inside \<open>sendParameterValue\<close>.
\<close>

definition interpolateParameter ::
  "InterpolationState \<Rightarrow> real \<Rightarrow> real \<Rightarrow> TransitionEngine \<Rightarrow> string \<times> string
     \<Rightarrow> TransitionEngine" where
  "interpolateParameter st eased now te p =
     (let pid = fst p;
          uid = snd p;
          startValue = (case map_of (startValues st) pid of Some v \<Rightarrow> v | None \<Rightarrow> 0);
          targetValue = (case map_of (targetValues st) pid of Some v \<Rightarrow> v | None \<Rightarrow> 0);
          currentValue =
            round (of_int startValue + of_int (targetValue - startValue) * eased);
          te1 = sendParameterValue te pid currentValue uid now
      in te1\<lparr>snapshotEngine := updateCurrentValue (snapshotEngine te1) pid currentValue\<rparr>)"

text \<open>
  The callback of \<open>setInterval\<close> in \<open>startInterpolationLoop\<close>, one frame.  \<open>uids\<close> are the
  identifiers that \<open>uuidv4()\<close> returns during the frame, one for each parameter, in order.
  A duration of \<open>0\<close> is outside the model: the quotient is \<open>Infinity\<close> or \<open>NaN\<close> in the
  program.
\<close>

definition interpolationFrame ::
  "TransitionEngine \<Rightarrow> real \<Rightarrow> string list \<Rightarrow> TransitionEngine" where
  "interpolationFrame te now uids =
     (case interpolationState te of
        None \<Rightarrow> stopInterpolationLoop te
      | Some st \<Rightarrow>
          if \<not> active st then stopInterpolationLoop te
          else
            let elapsed = now - startTime st;
                progress = frameProgress elapsed (duration_ms st);
                eased = easeOutCubic progress;
                te1 = foldl (interpolateParameter st eased now) te
                        (zip (parametersToInterpolate st) uids);
                te2 = (if progress \<ge> 1 then
                         let t1 = stopInterpolationLoop te1;
                             t2 = (if transitionCompleteCallback t1
                                   then t1\<lparr>completions :=
                                            completions t1 @ [interpolation_snapshot st]\<rparr>
                                   else t1)
                         in (t2\<lparr>interpolationState := Some (st\<lparr>active := False\<rparr>)\<rparr>)
                              \<lparr>interpolationState := None\<rparr>
                       else te1)
            in case interpolationState te2 of
                 Some st2 \<Rightarrow>
                   if interpolationUpdateCallback te2
                   then te2\<lparr>interpolationUpdates := interpolationUpdates te2 @ [st2]\<rparr>
                   else te2
               | None \<Rightarrow> te2)"

subsection \<open>Drop mode\<close>

definition executeDrop ::
  "TransitionEngine \<Rightarrow> Snapshot \<Rightarrow> TransitionSettings \<Rightarrow> real \<Rightarrow> TransitionEngine" where
  "executeDrop te snapshot settings now =
     (let te1 = cancelActiveTransition te;
          bar = getNextCycleBar (clockEngine te1) (cycleLengthBars settings);
          delayMs = getTimeUntilBar (clockEngine te1) bar;
          te2 = te1\<lparr>scheduledTransition :=
                      Some \<lparr> scheduled_snapshot = snapshot, scheduled_mode = DropMode,
                             targetBar = Some bar, targetBeat = None, scheduledAt = now,
                             executeAt = now + delayMs \<rparr>\<rparr>;
          (te3, timerId) = setTimeout te2 (DropCallback snapshot (repeatMode settings)) delayMs
      in te3\<lparr>transitionTimerId := Some timerId\<rparr>)"

text \<open>The body of \<open>targets.forEach\<close> in \<open>executeDropImmediate\<close>.\<close>

definition applyTarget :: "TransitionEngine \<Rightarrow> string \<times> int \<Rightarrow> TransitionEngine" where
  "applyTarget te target =
     te\<lparr>snapshotEngine := updateCurrentValue (snapshotEngine te) (fst target) (snd target)\<rparr>"

text \<open>
  The branch \<open>if (repeatMode) { ... }\<close> at the end of the method contains comments only.
\<close>

definition executeDropImmediate ::
  "TransitionEngine \<Rightarrow> Snapshot \<Rightarrow> bool \<Rightarrow> TransitionEngine" where
  "executeDropImmediate te snapshot repeat =
     (let messages = getSnapshotMidiMessages (snapshotEngine te) (snapshot_id snapshot);
          te1 = foldl sendMidiMessage te messages;
          targets = getInterpolationTargets (snapshotEngine te1) (snapshot_id snapshot);
          te2 = foldl applyTarget te1 targets;
          te3 = (if transitionCompleteCallback te2
                 then te2\<lparr>completions := completions te2 @ [snapshot]\<rparr>
                 else te2);
          te4 = te3\<lparr>scheduledTransition := None\<rparr>
      in if repeat then te4 else te4)"

subsection \<open>Timers firing\<close>

text \<open>
  The host runs the closure of a pending one-shot timer and forgets the timer.  A handle
  that is not pending (cleared, or already fired) does nothing.
\<close>

definition fireTimeout :: "TransitionEngine \<Rightarrow> nat \<Rightarrow> real \<Rightarrow> TransitionEngine" where
  "fireTimeout te timerId now =
     (case map_of (timeouts te) timerId of
        None \<Rightarrow> te
      | Some (callback, delayMs) \<Rightarrow>
          let te1 = te\<lparr>timeouts := AList.delete timerId (timeouts te)\<rparr>
          in case callback of
               JumpCallback snapshot fadeMs \<Rightarrow>
                 (startJumpInterpolation te1 snapshot fadeMs now)\<lparr>scheduledTransition := None\<rparr>
             | DropCallback snapshot repeat \<Rightarrow> executeDropImmediate te1 snapshot repeat)"

text \<open>The messages delivered to the sink between an earlier state and a later one.\<close>

definition deliveredBetween :: "TransitionEngine \<Rightarrow> TransitionEngine \<Rightarrow> MIDIMessage list" where
  "deliveredBetween before after = drop (length (sink before)) (sink after)"

section \<open>Example states\<close>

text \<open>
  Two snapshots and an engine holding them, used to evaluate the definitions.  \<open>snapshotA\<close>
  has the tempo parameter at 64 and a one-shot message that is the same control change;
  \<open>snapshotB\<close> is the snapshot of the first scenario of the specification.
\<close>

definition tempoMessage64 :: MIDIMessage where
  "tempoMessage64 =
     \<lparr> msg_type = CC, channel = 1, msg_value = 64, cc = Some 80, note_number = None,
       velocity = None, nrpnMsb = None, nrpnLsb = None \<rparr>"

definition volumeMessage100 :: MIDIMessage where
  "volumeMessage100 =
     \<lparr> msg_type = CC, channel = 1, msg_value = 100, cc = Some 7, note_number = None,
       velocity = None, nrpnMsb = None, nrpnLsb = None \<rparr>"

definition snapshotA :: Snapshot where
  "snapshotA =
     \<lparr> snapshot_id = ''A'', snapshot_name = ''A'', bank = 0, slot = 0,
       parameters = [\<lparr> parameterId = ''tempo'', param_value = 64, isEnabled = True \<rparr>],
       oneShotMessages = Some [tempoMessage64], color = None, createdAt = 0,
       modifiedAt = 0 \<rparr>"

definition snapshotB :: Snapshot where
  "snapshotB =
     \<lparr> snapshot_id = ''B'', snapshot_name = ''B'', bank = 0, slot = 1,
       parameters = [\<lparr> parameterId = ''track_1_volume'', param_value = 100,
                        isEnabled = True \<rparr>],
       oneShotMessages = None, color = None, createdAt = 0, modifiedAt = 0 \<rparr>"

definition exampleEngine :: TransitionEngine where
  "exampleEngine =
     onMidiSend (TransitionEngine_new ClockEngine_new
                   (loadSnapshots SnapshotEngine_new [snapshotA, snapshotB]))"

definition dropSettings :: "bool \<Rightarrow> TransitionSettings" where
  "dropSettings repeat =
     \<lparr> settings_mode = DropMode, fadeTimeMs = 100, quantization = QBeat, cycleLengthBars = 1,
       clockSource = internal, internalBpm = 120, repeatMode = repeat \<rparr>"

section \<open>Verification: easing and tempo conversion\<close>

lemma cube_mono_real:
  fixes a b :: real
  assumes "a \<le> b"
  shows "a ^ 3 \<le> b ^ 3"
proof -
  have "odd (3::nat)" by simp
  then show ?thesis using assms by (rule power_mono_odd)
qed

lemma easeOutCubic_mono: "s \<le> t \<Longrightarrow> easeOutCubic s \<le> easeOutCubic t"
proof -
  assume "s \<le> t"
  then have "1 - t \<le> 1 - s" by simp
  then have "(1 - t) ^ 3 \<le> (1 - s) ^ 3" by (rule cube_mono_real)
  then show ?thesis by (simp add: easeOutCubic_def)
qed

lemma frameProgress_mono:
  assumes "0 < d" and "e1 \<le> e2"
  shows "frameProgress e1 d \<le> frameProgress e2 d"
proof -
  have "e1 / d \<le> e2 / d" using assms by (simp add: divide_right_mono)
  then show ?thesis by (simp add: frameProgress_def min_def)
qed

text \<open>
  C7. With a duration \<open>d > 0\<close> the eased progress of a frame is \<open>0\<close> at \<open>elapsed = 0\<close>,
  is \<open>1\<close> for every \<open>elapsed \<ge> d\<close>, never decreases when \<open>elapsed\<close> grows, and for
  \<open>elapsed \<ge> 0\<close> it is the value \<open>1 - (1 - clamp(elapsed/d, 0, 1))\<^sup>3\<close> of the specification.
\<close>

theorem C7_eased_progress:
  assumes "0 < d"
  shows "easedProgress 0 d = 0
       \<and> (\<forall>elapsed. d \<le> elapsed \<longrightarrow> easedProgress elapsed d = 1)
       \<and> (\<forall>e1 e2. e1 \<le> e2 \<longrightarrow> easedProgress e1 d \<le> easedProgress e2 d)
       \<and> (\<forall>elapsed. 0 \<le> elapsed \<longrightarrow> easedProgress elapsed d = easedProgress_spec elapsed d)"
proof (intro conjI allI impI)
  show "easedProgress 0 d = 0"
    by (simp add: easedProgress_def frameProgress_def easeOutCubic_def)
next
  fix elapsed :: real
  assume "d \<le> elapsed"
  then have "1 \<le> elapsed / d" using assms by simp
  then have "frameProgress elapsed d = 1" by (simp add: frameProgress_def)
  then show "easedProgress elapsed d = 1"
    by (simp add: easedProgress_def easeOutCubic_def)
next
  fix e1 e2 :: real
  assume "e1 \<le> e2"
  then have "frameProgress e1 d \<le> frameProgress e2 d"
    using assms by (simp add: frameProgress_mono)
  then show "easedProgress e1 d \<le> easedProgress e2 d"
    by (simp add: easedProgress_def easeOutCubic_mono)
next
  fix elapsed :: real
  assume "0 \<le> elapsed"
  then have "0 \<le> elapsed / d" using assms by simp
  then have "max 0 (min 1 (elapsed / d)) = min (elapsed / d) 1"
    by (simp add: max_def min_def)
  then show "easedProgress elapsed d = easedProgress_spec elapsed d"
    by (simp add: easedProgress_def easedProgress_spec_def frameProgress_def easeOutCubic_def)
qed

theorem C7_eased_progress_witness:
  "(0::real) < 1000
   \<and> easedProgress 0 1000 = 0
   \<and> easedProgress 1500 1000 = 1
   \<and> easedProgress 250 1000 \<le> easedProgress 500 1000
   \<and> easedProgress 500 1000 = easedProgress_spec 500 1000"
proof -
  have pos: "(0::real) < 1000" by simp
  note facts = C7_eased_progress [OF pos]
  have a: "easedProgress 0 1000 = 0" using facts by blast
  have "(1000::real) \<le> 1500" by simp
  with facts have b: "easedProgress 1500 1000 = 1" by blast
  have "(250::real) \<le> 500" by simp
  with facts have c: "easedProgress 250 1000 \<le> easedProgress 500 1000" by blast
  have "(0::real) \<le> 500" by simp
  with facts have d: "easedProgress 500 1000 = easedProgress_spec 500 1000" by blast
  from pos a b c d show ?thesis by blast
qed

text \<open>
  C9. Converting a MIDI value \<open>v \<in> [0,127]\<close> to BPM and back returns \<open>v\<close>; converting a
  tempo \<open>b \<in> [40,240]\<close> to a MIDI value and back lands within \<open>1\<close> of \<open>b\<close>.
\<close>

theorem C9_bpm_midi_roundtrip:
  "(0 \<le> v \<and> v \<le> 127 \<longrightarrow> bpmToMidiValue (midiValueToBpm (of_int v)) = v)
   \<and> (40 \<le> b \<and> b \<le> 240 \<longrightarrow> \<bar>midiValueToBpm (of_int (bpmToMidiValue b)) - b\<bar> \<le> 1)"
proof (intro conjI impI)
  assume v: "0 \<le> v \<and> v \<le> 127"
  have "midiValueToBpm (of_int v) = 40 + (of_int v / 127) * 200"
    by (simp add: midiValueToBpm_def)
  moreover have "(40::real) \<le> 40 + (of_int v / 127) * 200" using v by simp
  moreover have "40 + (real_of_int v / 127) * 200 \<le> 240" using v by simp
  ultimately have "bpmToMidiValue (midiValueToBpm (of_int v)) = round (real_of_int v)"
    by (simp add: bpmToMidiValue_def max_def min_def)
  then show "bpmToMidiValue (midiValueToBpm (of_int v)) = v" by simp
next
  assume b: "40 \<le> b \<and> b \<le> 240"
  define x where "x = ((b - 40) / 200) * 127"
  define m where "m = round x"
  have "max 40 (min 240 b) = b" using b by simp
  then have m: "bpmToMidiValue b = m"
    by (simp add: bpmToMidiValue_def m_def x_def)
  have near: "\<bar>of_int m - x\<bar> \<le> 1 / 2"
    unfolding m_def by (rule of_int_round_abs_le)
  have "midiValueToBpm (of_int m) - b = (of_int m - x) * (200 / 127)"
    by (simp add: midiValueToBpm_def x_def field_simps)
  then have "\<bar>midiValueToBpm (of_int m) - b\<bar> = \<bar>of_int m - x\<bar> * (200 / 127)"
    by (simp only: abs_mult)
  with near have "\<bar>midiValueToBpm (of_int m) - b\<bar> \<le> (1 / 2) * (200 / 127)"
    by simp
  then show "\<bar>midiValueToBpm (of_int (bpmToMidiValue b)) - b\<bar> \<le> 1"
    using m by simp
qed

theorem C9_bpm_midi_roundtrip_witness:
  "(0::int) \<le> 64 \<and> (64::int) \<le> 127 \<and> bpmToMidiValue (midiValueToBpm (of_int 64)) = 64
   \<and> (40::real) \<le> 120 \<and> (120::real) \<le> 240
   \<and> \<bar>midiValueToBpm (of_int (bpmToMidiValue 120)) - 120\<bar> \<le> 1"
  using C9_bpm_midi_roundtrip [of 64 120] by simp

section \<open>Verification: the clock\<close>

lemma ceil_times_ge:
  fixes a k :: int
  assumes "1 \<le> k"
  shows "a \<le> \<lceil>real_of_int a / real_of_int k\<rceil> * k"
proof -
  have "real_of_int a / real_of_int k \<le> of_int \<lceil>real_of_int a / real_of_int k\<rceil>"
    by (rule le_of_int_ceiling)
  moreover have "0 < real_of_int k" using assms by simp
  ultimately have "real_of_int a \<le> of_int \<lceil>real_of_int a / real_of_int k\<rceil> * real_of_int k"
    using pos_divide_le_eq by blast
  then have "real_of_int a \<le> real_of_int (\<lceil>real_of_int a / real_of_int k\<rceil> * k)" by simp
  then show ?thesis by (simp only: of_int_le_iff)
qed

lemma ceil_times_least:
  fixes a k m :: int
  assumes "1 \<le> k" and "k dvd m" and "a \<le> m"
  shows "\<lceil>real_of_int a / real_of_int k\<rceil> * k \<le> m"
proof -
  from \<open>k dvd m\<close> obtain j where m: "m = k * j" by (auto simp: dvd_def)
  have "real_of_int a \<le> real_of_int j * real_of_int k"
    using assms(3) m by (metis mult.commute of_int_le_iff of_int_mult)
  moreover have "0 < real_of_int k" using assms(1) by simp
  ultimately have "real_of_int a / real_of_int k \<le> real_of_int j"
    by (simp add: pos_divide_le_eq)
  then have "\<lceil>real_of_int a / real_of_int k\<rceil> \<le> j" by (simp add: ceiling_le_iff)
  then have "\<lceil>real_of_int a / real_of_int k\<rceil> * k \<le> j * k"
    using assms(1) by (simp add: mult_right_mono)
  then show ?thesis using m by (simp add: mult.commute)
qed

text \<open>
  C3. For a cycle length \<open>k \<ge> 1\<close>, \<open>getNextCycleBar k\<close> is a multiple of \<open>k\<close>, is strictly
  greater than the current bar, and no multiple of \<open>k\<close> above the current bar is smaller.
\<close>

theorem C3_next_cycle_bar:
  assumes "1 \<le> k"
  shows "currentBar (state e) < getNextCycleBar e k
       \<and> k dvd getNextCycleBar e k
       \<and> (\<forall>m. currentBar (state e) < m \<and> k dvd m \<longrightarrow> getNextCycleBar e k \<le> m)"
proof (intro conjI allI impI)
  have "currentBar (state e) + 1 \<le> getNextCycleBar e k"
    unfolding getNextCycleBar_def Let_def using assms by (rule ceil_times_ge)
  then show "currentBar (state e) < getNextCycleBar e k" by simp
next
  show "k dvd getNextCycleBar e k" by (simp add: getNextCycleBar_def)
next
  fix m
  assume "currentBar (state e) < m \<and> k dvd m"
  then have "k dvd m" and "currentBar (state e) + 1 \<le> m" by simp_all
  with assms show "getNextCycleBar e k \<le> m"
    unfolding getNextCycleBar_def Let_def by (rule ceil_times_least)
qed

theorem C3_next_cycle_bar_witness:
  "(1::int) \<le> 4
   \<and> currentBar (state (ClockEngine_new\<lparr>state := (state ClockEngine_new)\<lparr>currentBar := 5\<rparr>\<rparr>)) = 5
   \<and> getNextCycleBar (ClockEngine_new\<lparr>state := (state ClockEngine_new)\<lparr>currentBar := 5\<rparr>\<rparr>) 4 = 8"
proof -
  let ?e = "ClockEngine_new\<lparr>state := (state ClockEngine_new)\<lparr>currentBar := 5\<rparr>\<rparr>"
  have k: "(1::int) \<le> 4" by simp
  have c: "currentBar (state ?e) = 5" by simp
  note facts = C3_next_cycle_bar [OF k, of ?e]
  have lo: "5 < getNextCycleBar ?e 4" using facts c by simp
  have dv: "4 dvd getNextCycleBar ?e 4" using facts by blast
  have "(5::int) < 8 \<and> (4::int) dvd 8" by simp
  then have hi: "getNextCycleBar ?e 4 \<le> 8" using facts c by simp
  from lo hi dv have "getNextCycleBar ?e 4 = 8" by presburger
  with k c show ?thesis by blast
qed

lemma smod_nonneg:
  fixes a b :: int
  assumes "0 \<le> a" and "0 < b"
  shows "a smod b = a mod b"
proof (cases "a = 0")
  case True
  then show ?thesis by (simp add: smod_int_alt_def)
next
  case False
  with assms have "sgn a = 1" and "\<bar>a\<bar> = a" and "\<bar>b\<bar> = b" by simp_all
  then show ?thesis by (simp add: smod_int_alt_def)
qed

lemma scale_by_positive:
  fixes n p :: int and c :: real
  assumes "0 < c"
  shows "(0 < of_int n * c) = (0 < n)"
    and "(of_int n * c = of_int p * c) = (n = p)"
    and "(of_int n * c < of_int p * c) = (n < p)"
proof -
  show "(0 < of_int n * c) = (0 < n)"
    using assms by (simp add: zero_less_mult_iff)
  show "(of_int n * c = of_int p * c) = (n = p)"
    using assms by simp
  show "(of_int n * c < of_int p * c) = (n < p)"
    using assms by (simp add: mult_less_cancel_right)
qed

text \<open>
  C2 (amended). For a tempo in \<open>[20,300]\<close>, a beat in \<open>[0, beats_per_bar)\<close>, a bar \<open>\<ge> 0\<close> and
  a kind \<open>q\<close> among beat, bar, 2bar, 4bar, \<open>getTimeUntilNextQuantization q\<close> is never \<open>0\<close>:
  it is strictly positive; when the position, read in whole beats, is on a boundary of kind
  \<open>q\<close> it is one full period of \<open>q\<close>; otherwise it is strictly less than one period.
\<close>

theorem C2_time_until_next_quantization:
  assumes bpm: "20 \<le> bpm (state e) \<and> bpm (state e) \<le> 300"
    and beat: "0 \<le> currentBeat (state e) \<and> currentBeat (state e) < beatsPerBar (state e)"
    and bar: "0 \<le> currentBar (state e)"
    and q: "q \<noteq> QNone"
  shows "0 < getTimeUntilNextQuantization e q
       \<and> (if onBeatGridBoundary e q
          then getTimeUntilNextQuantization e q = periodMs e q
          else getTimeUntilNextQuantization e q < periodMs e q)"
proof -
  define c where "c = 60000 / bpm (state e)"
  have c: "0 < c" using bpm by (simp add: c_def)
  have ms: "(60 / bpm (state e)) * 1000 = c" by (simp add: c_def)
  note sc = scale_by_positive [OF c]
  define B where "B = beatsPerBar (state e)"
  define k where "k = currentBeat (state e)"
  have k: "0 \<le> k \<and> k < B" using beat by (simp add: B_def k_def)
  have m2: "currentBar (state e) smod 2 = currentBar (state e) mod 2"
    using bar by (simp add: smod_nonneg)
  have m4: "currentBar (state e) smod 4 = currentBar (state e) mod 4"
    using bar by (simp add: smod_nonneg)
  show ?thesis
  proof (cases q)
    case QNone
    with q show ?thesis by simp
  next
    case QBeat
    have T: "getTimeUntilNextQuantization e q = of_int 1 * c"
      unfolding getTimeUntilNextQuantization_def Let_def QBeat QuantizationType.case ms
      by simp
    have P: "periodMs e q = of_int 1 * c"
      unfolding periodMs_def periodBeats_def QBeat QuantizationType.case c_def [symmetric]
      by simp
    show ?thesis unfolding T P sc by (simp add: onBeatGridBoundary_def QBeat)
  next
    case QBar
    have T: "getTimeUntilNextQuantization e q = of_int (B - k) * c"
      unfolding getTimeUntilNextQuantization_def Let_def QBar QuantizationType.case ms
      by (simp add: B_def k_def)
    have P: "periodMs e q = of_int B * c"
      unfolding periodMs_def periodBeats_def QBar QuantizationType.case c_def [symmetric]
      by (simp add: B_def)
    have G: "onBeatGridBoundary e q = (k = 0)"
      by (simp add: onBeatGridBoundary_def QBar k_def)
    show ?thesis unfolding T P G sc using k by auto
  next
    case Q2Bar
    define r where "r = currentBar (state e) mod 2"
    have r: "r = 0 \<or> r = 1" unfolding r_def by presburger
    have T: "getTimeUntilNextQuantization e q = of_int (B * 2 - (r * B + k)) * c"
      unfolding getTimeUntilNextQuantization_def Let_def Q2Bar QuantizationType.case ms m2
      by (simp add: B_def k_def r_def)
    have P: "periodMs e q = of_int (2 * B) * c"
      unfolding periodMs_def periodBeats_def Q2Bar QuantizationType.case c_def [symmetric]
      by (simp add: B_def)
    have G: "onBeatGridBoundary e q = (k = 0 \<and> r = 0)"
      by (simp add: onBeatGridBoundary_def Q2Bar k_def r_def)
    show ?thesis unfolding T P G sc using k r by auto
  next
    case Q4Bar
    define r where "r = currentBar (state e) mod 4"
    have r: "r = 0 \<or> r = 1 \<or> r = 2 \<or> r = 3" unfolding r_def by presburger
    have T: "getTimeUntilNextQuantization e q = of_int (B * 4 - (r * B + k)) * c"
      unfolding getTimeUntilNextQuantization_def Let_def Q4Bar QuantizationType.case ms m4
      by (simp add: B_def k_def r_def)
    have P: "periodMs e q = of_int (4 * B) * c"
      unfolding periodMs_def periodBeats_def Q4Bar QuantizationType.case c_def [symmetric]
      by (simp add: B_def)
    have G: "onBeatGridBoundary e q = (k = 0 \<and> r = 0)"
      by (simp add: onBeatGridBoundary_def Q4Bar k_def r_def)
    show ?thesis unfolding T P G sc using k r by auto
  qed
qed

theorem C2_time_until_next_quantization_witness:
  "getTimeUntilNextQuantization
     (ClockEngine_new\<lparr>state := (state ClockEngine_new)\<lparr>currentBeat := 2\<rparr>\<rparr>) QBar = 1000
   \<and> periodMs (ClockEngine_new\<lparr>state := (state ClockEngine_new)\<lparr>currentBeat := 2\<rparr>\<rparr>) QBar = 2000
   \<and> \<not> onBeatGridBoundary
        (ClockEngine_new\<lparr>state := (state ClockEngine_new)\<lparr>currentBeat := 2\<rparr>\<rparr>) QBar
   \<and> 0 < getTimeUntilNextQuantization
        (ClockEngine_new\<lparr>state := (state ClockEngine_new)\<lparr>currentBeat := 2\<rparr>\<rparr>) QBar
   \<and> getTimeUntilNextQuantization
        (ClockEngine_new\<lparr>state := (state ClockEngine_new)\<lparr>currentBeat := 2\<rparr>\<rparr>) QBar
      < periodMs (ClockEngine_new\<lparr>state := (state ClockEngine_new)\<lparr>currentBeat := 2\<rparr>\<rparr>) QBar"
proof -
  let ?e = "ClockEngine_new\<lparr>state := (state ClockEngine_new)\<lparr>currentBeat := 2\<rparr>\<rparr>"
  have h1: "20 \<le> bpm (state ?e) \<and> bpm (state ?e) \<le> 300"
    by (simp add: ClockEngine_new_def)
  have h2: "0 \<le> currentBeat (state ?e) \<and> currentBeat (state ?e) < beatsPerBar (state ?e)"
    by (simp add: ClockEngine_new_def)
  have h3: "0 \<le> currentBar (state ?e)"
    by (simp add: ClockEngine_new_def)
  have h4: "QBar \<noteq> QNone" by simp
  have g: "\<not> onBeatGridBoundary ?e QBar"
    by (simp add: onBeatGridBoundary_def)
  have t: "getTimeUntilNextQuantization ?e QBar = 1000"
    by (simp add: getTimeUntilNextQuantization_def ClockEngine_new_def)
  have p: "periodMs ?e QBar = 2000"
    by (simp add: periodMs_def periodBeats_def ClockEngine_new_def)
  from C2_time_until_next_quantization [OF h1 h2 h3 h4] g
  have "0 < getTimeUntilNextQuantization ?e QBar
        \<and> getTimeUntilNextQuantization ?e QBar < periodMs ?e QBar"
    by simp
  with t p g show ?thesis by blast
qed

text \<open>
  The claim as stated fails on a fresh clock (bar 0, beat 0, tick accumulator 0, 120 BPM):
  it is on a bar boundary, and the query for \<open>bar\<close> returns 2000 ms, not 0.
\<close>

theorem C2_counterexample:
  "20 \<le> bpm (state ClockEngine_new) \<and> bpm (state ClockEngine_new) \<le> 300
   \<and> onBoundary ClockEngine_new QBar
   \<and> getTimeUntilNextQuantization ClockEngine_new QBar = 2000"
  by (simp add: ClockEngine_new_def onBoundary_def getTimeUntilNextQuantization_def)

lemma clockInv_start: "clockInv e \<Longrightarrow> clockInv (start e now)"
  by (simp add: clockInv_def start_def startInternalClock_def Let_def)

lemma clockInv_stop: "clockInv e \<Longrightarrow> clockInv (stop e)"
  by (simp add: clockInv_def stop_def stopInternalClock_def)

lemma clockInv_reset: "clockInv e \<Longrightarrow> clockInv (reset e)"
  by (simp add: clockInv_def reset_def)

lemma clockInv_setBpm: "clockInv e \<Longrightarrow> clockInv (setBpm e b)"
  by (simp add: clockInv_def setBpm_def startInternalClock_def stopInternalClock_def Let_def)

lemma clockInv_source: "clockInv e \<Longrightarrow> clockInv (e\<lparr>state := (state e)\<lparr>source := src\<rparr>\<rparr>)"
  by (simp add: clockInv_def)

lemma clockInv_setClockSource: "clockInv e \<Longrightarrow> clockInv (setClockSource e src now)"
  by (simp add: setClockSource_def Let_def clockInv_start clockInv_stop clockInv_source)

text \<open>What one accepted tick does to the position.\<close>

lemma advanceBeat_position:
  "tickCount (advanceBeat e now) = tickCount e
   \<and> beatsPerBar (state (advanceBeat e now)) = beatsPerBar (state e)
   \<and> ppqn (state (advanceBeat e now)) = ppqn (state e)
   \<and> (if currentBeat (state e) + 1 < beatsPerBar (state e)
      then currentBeat (state (advanceBeat e now)) = currentBeat (state e) + 1
           \<and> currentBar (state (advanceBeat e now)) = currentBar (state e)
      else currentBeat (state (advanceBeat e now)) = 0
           \<and> currentBar (state (advanceBeat e now)) = currentBar (state e) + 1)"
  by (simp add: advanceBeat_def emit_def Let_def)

lemma tick_position:
  assumes "source (state e) = midi"
  shows "beatsPerBar (state (processMidiClockTick e now)) = beatsPerBar (state e)
   \<and> ppqn (state (processMidiClockTick e now)) = ppqn (state e)
   \<and> (if tickCount e + 1 < ppqn (state e)
      then tickCount (processMidiClockTick e now) = tickCount e + 1
           \<and> currentBeat (state (processMidiClockTick e now)) = currentBeat (state e)
           \<and> currentBar (state (processMidiClockTick e now)) = currentBar (state e)
      else tickCount (processMidiClockTick e now) = 0
           \<and> (if currentBeat (state e) + 1 < beatsPerBar (state e)
               then currentBeat (state (processMidiClockTick e now)) = currentBeat (state e) + 1
                    \<and> currentBar (state (processMidiClockTick e now)) = currentBar (state e)
               else currentBeat (state (processMidiClockTick e now)) = 0
                    \<and> currentBar (state (processMidiClockTick e now)) = currentBar (state e) + 1))"
proof (cases "tickCount e + 1 < ppqn (state e)")
  case True
  then show ?thesis using assms
    by (simp add: processMidiClockTick_def emit_def Let_def)
next
  case False
  let ?e2 = "e\<lparr>state := (state e)\<lparr>lastTickTime := now\<rparr>, tickCount := 0\<rparr>"
  have "processMidiClockTick e now =
        emit (advanceBeat ?e2 now)
          \<lparr> event_type = TickEvent, event_bar = currentBar (state (advanceBeat ?e2 now)),
            event_beat = currentBeat (state (advanceBeat ?e2 now)), timestamp = now \<rparr>"
    using False assms by (simp add: processMidiClockTick_def Let_def)
  then show ?thesis
    using False advanceBeat_position [of ?e2 now] by (simp add: emit_def)
qed

lemma clockInv_tick: "clockInv e \<Longrightarrow> clockInv (processMidiClockTick e now)"
proof (cases "source (state e) = midi")
  case False
  assume "clockInv e"
  with False show ?thesis by (simp add: processMidiClockTick_def)
next
  case True
  assume inv: "clockInv e"
  from tick_position [OF True, of now] inv show ?thesis
    by (auto simp add: clockInv_def split: if_splits)
qed

lemma clockInv_step: "clockInv e \<Longrightarrow> clockInv (clockStep e x)"
  by (cases x)
    (simp_all add: clockInv_start clockInv_stop clockInv_reset clockInv_setBpm
      clockInv_setClockSource clockInv_tick processMidiStart_def processMidiStop_def
      processMidiContinue_def)

lemma clockInv_foldl: "clockInv e \<Longrightarrow> clockInv (foldl clockStep e ops)"
  by (induction ops arbitrary: e) (simp_all add: clockInv_step)

lemma clockInv_new: "clockInv ClockEngine_new"
  by (simp add: clockInv_def ClockEngine_new_def)

text \<open>
  C4. After any sequence of clock operations on a fresh clock, the beat lies in
  \<open>[0, beats_per_bar)\<close>, the bar is \<open>\<ge> 0\<close> and the tick accumulator lies in \<open>[0, ppqn)\<close>.
  A tick ingested there under the external source adds one to the accumulator; when that
  reaches \<open>ppqn\<close> the accumulator returns to \<open>0\<close> and the beat advances; when the beat
  reaches \<open>beats_per_bar\<close> it returns to \<open>0\<close> and the bar advances by one.
\<close>

theorem C4_clock_invariant:
  "(let e = runClock ops in
      0 \<le> currentBeat (state e) \<and> currentBeat (state e) < beatsPerBar (state e)
      \<and> 0 \<le> currentBar (state e)
      \<and> 0 \<le> tickCount e \<and> tickCount e < ppqn (state e)
      \<and> (source (state e) = midi \<longrightarrow>
           (let e' = processMidiClockTick e now in
              if tickCount e + 1 < ppqn (state e)
              then tickCount e' = tickCount e + 1
                   \<and> currentBeat (state e') = currentBeat (state e)
                   \<and> currentBar (state e') = currentBar (state e)
              else tickCount e' = 0
                   \<and> (if currentBeat (state e) + 1 < beatsPerBar (state e)
                       then currentBeat (state e') = currentBeat (state e) + 1
                            \<and> currentBar (state e') = currentBar (state e)
                       else currentBeat (state e') = 0
                            \<and> currentBar (state e') = currentBar (state e) + 1))))"
proof -
  have inv: "clockInv (runClock ops)"
    unfolding runClock_def using clockInv_new by (rule clockInv_foldl)
  have step: "source (state (runClock ops)) = midi \<Longrightarrow> ?thesis"
    using inv tick_position [of "runClock ops" now]
    by (simp add: Let_def clockInv_def)
  show ?thesis
  proof (cases "source (state (runClock ops)) = midi")
    case True
    then show ?thesis by (rule step)
  next
    case False
    then show ?thesis using inv by (simp add: Let_def clockInv_def)
  qed
qed

lemmas clock_defs = runClock_def ClockEngine_new_def setClockSource_def processMidiClockTick_def
  advanceBeat_def emit_def start_def stop_def reset_def startInternalClock_def
  stopInternalClock_def processMidiStart_def processMidiStop_def processMidiContinue_def
  setBpm_def Let_def

theorem C4_clock_invariant_witness:
  "source (state (runClock (SetClockSource midi 0 # replicate 23 (MidiClockTick 1)))) = midi
   \<and> tickCount (runClock (SetClockSource midi 0 # replicate 23 (MidiClockTick 1))) = 23
   \<and> currentBeat (state (runClock (SetClockSource midi 0 # replicate 23 (MidiClockTick 1)))) = 0
   \<and> tickCount (processMidiClockTick
         (runClock (SetClockSource midi 0 # replicate 23 (MidiClockTick 1))) 2) = 0
   \<and> currentBeat (state (processMidiClockTick
         (runClock (SetClockSource midi 0 # replicate 23 (MidiClockTick 1))) 2)) = 1
   \<and> currentBar (state (processMidiClockTick
         (runClock (SetClockSource midi 0 # replicate 23 (MidiClockTick 1))) 2)) = 0"
proof -
  let ?e = "runClock (SetClockSource midi 0 # replicate 23 (MidiClockTick 1))"
  have ev: "source (state ?e) = midi \<and> tickCount ?e = 23 \<and> ppqn (state ?e) = 24
            \<and> currentBeat (state ?e) = 0 \<and> beatsPerBar (state ?e) = 4
            \<and> currentBar (state ?e) = 0"
    by (simp add: clock_defs eval_nat_numeral)
  from C4_clock_invariant [of "SetClockSource midi 0 # replicate 23 (MidiClockTick 1)" 2] ev
  show ?thesis by (simp add: Let_def)
qed

text \<open>
  Under the external source every tick moves the position, counted in ticks, forward by
  exactly one.
\<close>

lemma tick_advances_position:
  assumes "clockInv e" and "source (state e) = midi"
  shows "tickPosition (processMidiClockTick e now) = tickPosition e + 1"
proof -
  note t = tick_position [OF assms(2), of now]
  show ?thesis
  proof (cases "tickCount e + 1 < ppqn (state e)")
    case True
    with t show ?thesis by (simp add: tickPosition_def)
  next
    case False
    with assms(1) have tc: "tickCount e = ppqn (state e) - 1" by (simp add: clockInv_def)
    show ?thesis
    proof (cases "currentBeat (state e) + 1 < beatsPerBar (state e)")
      case True
      with False t have "tickPosition (processMidiClockTick e now)
          = (currentBar (state e) * beatsPerBar (state e) + (currentBeat (state e) + 1))
              * ppqn (state e)"
        by (simp add: tickPosition_def)
      then show ?thesis by (simp add: tickPosition_def tc algebra_simps)
    next
      case b: False
      with assms(1) have bt: "currentBeat (state e) = beatsPerBar (state e) - 1"
        by (simp add: clockInv_def)
      from False b t have "tickPosition (processMidiClockTick e now)
          = ((currentBar (state e) + 1) * beatsPerBar (state e)) * ppqn (state e)"
        by (simp add: tickPosition_def)
      then show ?thesis by (simp add: tickPosition_def tc bt algebra_simps)
    qed
  qed
qed

text \<open>
  The external-event methods.  Only \<open>processMidiClockTick\<close> tests the source; Start, Stop
  and Continue are \<open>reset\<close>/\<open>start\<close>/\<open>stop\<close> whatever the source is.  Start puts the position
  at bar 0, beat 0 before starting, Continue starts where the position is.
\<close>

lemma tick_ignored_when_internal:
  "source (state e) = internal \<Longrightarrow> processMidiClockTick e now = e"
  by (simp add: processMidiClockTick_def)

lemma processMidiStart_resets_and_runs:
  "currentBar (state (processMidiStart e now)) = 0
   \<and> currentBeat (state (processMidiStart e now)) = 0
   \<and> tickCount (processMidiStart e now) = 0
   \<and> isRunning (state (processMidiStart e now))"
  by (simp add: processMidiStart_def start_def reset_def startInternalClock_def Let_def)

lemma processMidiContinue_keeps_position:
  "currentBar (state (processMidiContinue e now)) = currentBar (state e)
   \<and> currentBeat (state (processMidiContinue e now)) = currentBeat (state e)
   \<and> tickCount (processMidiContinue e now) = tickCount e
   \<and> isRunning (state (processMidiContinue e now))"
  by (simp add: processMidiContinue_def start_def startInternalClock_def Let_def)

text \<open>
  C5. The claim is that under the internal source the four external-event methods leave the
  clock state as it is.  For \<open>processMidiStart\<close>, \<open>processMidiContinue\<close> and
  \<open>processMidiStop\<close> the code does otherwise: on a fresh clock (internal source, stopped)
  Start and Continue set the clock running and arm the internal timer; on a running internal
  clock Stop stops it; and after one beat of external ticks followed by a switch back to
  the internal source, Start moves the position from beat 1 to beat 0.
\<close>

theorem C5_unguarded_start_stop_continue:
  "source (state ClockEngine_new) = internal
   \<and> \<not> isRunning (state ClockEngine_new)
   \<and> isRunning (state (processMidiStart ClockEngine_new 1000))
   \<and> intervalId (processMidiStart ClockEngine_new 1000) \<noteq> None
   \<and> isRunning (state (processMidiContinue ClockEngine_new 1000))
   \<and> source (state (start ClockEngine_new 0)) = internal
   \<and> isRunning (state (start ClockEngine_new 0))
   \<and> \<not> isRunning (state (processMidiStop (start ClockEngine_new 0)))
   \<and> (let e = runClock (SetClockSource midi 0 # replicate 24 (MidiClockTick 1)
                         @ [SetClockSource internal 2])
      in source (state e) = internal \<and> currentBeat (state e) = 1
         \<and> currentBeat (state (processMidiStart e 3)) = 0)"
  by (simp add: clock_defs eval_nat_numeral)

section \<open>Verification: cancelling\<close>

lemma cancel_fields:
  "transitionTimerId (cancelActiveTransition te) = None
   \<and> scheduledTransition (cancelActiveTransition te) = None
   \<and> interpolationTimerId (cancelActiveTransition te) = None
   \<and> interpolationState (cancelActiveTransition te) = None"
  by (simp add: cancelActiveTransition_def stopInterpolationLoop_def clearTimeout_def
      clearInterval_def Let_def split: option.splits)

lemma cancel_when_idle:
  assumes "transitionTimerId te = None" and "scheduledTransition te = None"
    and "interpolationTimerId te = None" and "interpolationState te = None"
  shows "cancelActiveTransition te = te"
  using assms by (simp add: cancelActiveTransition_def stopInterpolationLoop_def Let_def)

lemma cancel_keeps_store:
  "snapshotEngine (cancelActiveTransition te) = snapshotEngine te
   \<and> sink (cancelActiveTransition te) = sink te
   \<and> completions (cancelActiveTransition te) = completions te"
  by (simp add: cancelActiveTransition_def stopInterpolationLoop_def clearTimeout_def
      clearInterval_def Let_def split: option.splits)

text \<open>
  C6. Cancelling twice is the same as cancelling once.  After a cancel no transition is
  active, the observers of the scheduled transition and of the interpolation state return
  nothing, and the current values are those from before the call.
\<close>

theorem C6_cancel_idempotent:
  "cancelActiveTransition (cancelActiveTransition te) = cancelActiveTransition te
   \<and> \<not> isTransitionActive (cancelActiveTransition te)
   \<and> getScheduledTransition (cancelActiveTransition te) = None
   \<and> getInterpolationState (cancelActiveTransition te) = None
   \<and> currentValues (snapshotEngine (cancelActiveTransition te))
       = currentValues (snapshotEngine te)"
proof -
  note f = cancel_fields [of te]
  have "cancelActiveTransition (cancelActiveTransition te) = cancelActiveTransition te"
    using f by (intro cancel_when_idle) simp_all
  moreover have "\<not> isTransitionActive (cancelActiveTransition te)"
    using f by (simp add: isTransitionActive_def)
  moreover have "getScheduledTransition (cancelActiveTransition te) = None"
    using f by (simp add: getScheduledTransition_def)
  moreover have "getInterpolationState (cancelActiveTransition te) = None"
    using f by (simp add: getInterpolationState_def)
  moreover have "currentValues (snapshotEngine (cancelActiveTransition te))
                 = currentValues (snapshotEngine te)"
    by (simp add: cancel_keeps_store)
  ultimately show ?thesis by blast
qed

theorem C6_cancel_idempotent_witness:
  "isTransitionActive (executeDrop exampleEngine snapshotB (dropSettings False) 0)
   \<and> \<not> isTransitionActive
        (cancelActiveTransition (executeDrop exampleEngine snapshotB (dropSettings False) 0))
   \<and> cancelActiveTransition
        (cancelActiveTransition (executeDrop exampleEngine snapshotB (dropSettings False) 0))
       = cancelActiveTransition (executeDrop exampleEngine snapshotB (dropSettings False) 0)
   \<and> getScheduledTransition
        (cancelActiveTransition (executeDrop exampleEngine snapshotB (dropSettings False) 0))
       = None"
proof -
  have "isTransitionActive (executeDrop exampleEngine snapshotB (dropSettings False) 0)"
    by code_simp
  with C6_cancel_idempotent [of "executeDrop exampleEngine snapshotB (dropSettings False) 0"]
  show ?thesis by blast
qed

section \<open>Verification: the snapshot store during a Jump\<close>

text \<open>
  C10. When the identifier drawn for the temporary snapshot is not the identifier of a stored
  snapshot, \<open>sendParameterValue\<close> returns with the \<open>Map\<close> of stored snapshots as it was
  before the call: the same snapshots, unmodified, in the same order.  The current values
  are not touched either.
\<close>

theorem C10_sendParameterValue_keeps_store:
  assumes "uid \<notin> fst ` set (snapshots (snapshotEngine te))"
  shows "snapshots (snapshotEngine (sendParameterValue te pid v uid now))
           = snapshots (snapshotEngine te)
       \<and> currentValues (snapshotEngine (sendParameterValue te pid v uid now))
           = currentValues (snapshotEngine te)"
  using assms
  by (simp add: sendParameterValue_def createSnapshot_def updateSnapshotParameter_def
      deleteSnapshot_def Let_def update_conv' delete_update_same)

theorem C10_sendParameterValue_keeps_store_witness:
  "''temp-uuid'' \<notin> fst ` set (snapshots (snapshotEngine exampleEngine))
   \<and> snapshots (snapshotEngine
        (sendParameterValue exampleEngine ''track_1_volume'' 90 ''temp-uuid'' 5))
       = snapshots (snapshotEngine exampleEngine)"
proof -
  have "map fst (snapshots (snapshotEngine exampleEngine)) = [''A'', ''B'']"
    by code_simp
  then have "fst ` set (snapshots (snapshotEngine exampleEngine)) = {''A'', ''B''}"
    by (simp only: set_map [symmetric]) simp
  then have fresh: "''temp-uuid'' \<notin> fst ` set (snapshots (snapshotEngine exampleEngine))"
    by simp
  from C10_sendParameterValue_keeps_store [OF fresh, of "''track_1_volume''" 90 5] fresh
  show ?thesis by blast
qed

lemma sendParameterValue_store:
  assumes "uid \<notin> fst ` set (snapshots (snapshotEngine te))"
  shows "snapshotEngine (sendParameterValue te pid v uid now) = snapshotEngine te"
  using assms
  by (simp add: sendParameterValue_def createSnapshot_def updateSnapshotParameter_def
      deleteSnapshot_def Let_def update_conv' delete_update_same)

lemma interpolateParameter_keeps_snapshots:
  assumes "snd p \<notin> fst ` set (snapshots (snapshotEngine te))"
  shows "snapshots (snapshotEngine (interpolateParameter st eased now te p))
         = snapshots (snapshotEngine te)"
  unfolding interpolateParameter_def Let_def
  using assms by (simp add: sendParameterValue_store updateCurrentValue_def)

lemma foldl_interpolateParameter_keeps_snapshots:
  assumes "\<forall>p \<in> set ps. snd p \<notin> fst ` set (snapshots (snapshotEngine te))"
  shows "snapshots (snapshotEngine (foldl (interpolateParameter st eased now) te ps))
         = snapshots (snapshotEngine te)"
  using assms
proof (induction ps arbitrary: te)
  case Nil
  then show ?case by simp
next
  case (Cons p ps)
  have step: "snapshots (snapshotEngine (interpolateParameter st eased now te p))
              = snapshots (snapshotEngine te)"
    using Cons.prems by (intro interpolateParameter_keeps_snapshots) simp
  have "snapshots (snapshotEngine
          (foldl (interpolateParameter st eased now) (interpolateParameter st eased now te p) ps))
        = snapshots (snapshotEngine (interpolateParameter st eased now te p))"
    using Cons.prems unfolding step [symmetric]
    by (intro Cons.IH) (simp add: step)
  then show ?case by (simp add: step)
qed

lemma stopInterpolationLoop_store:
  "snapshotEngine (stopInterpolationLoop te) = snapshotEngine te"
  by (simp add: stopInterpolationLoop_def clearInterval_def split: option.splits)

text \<open>
  A whole frame of the interpolation loop leaves the stored snapshots as they were, when
  none of the identifiers drawn during the frame is the identifier of a stored snapshot.
\<close>

lemma interpolationFrame_keeps_snapshots:
  assumes "\<forall>uid \<in> set uids. uid \<notin> fst ` set (snapshots (snapshotEngine te))"
  shows "snapshots (snapshotEngine (interpolationFrame te now uids))
         = snapshots (snapshotEngine te)"
proof (cases "interpolationState te")
  case None
  then show ?thesis by (simp add: interpolationFrame_def stopInterpolationLoop_store)
next
  case (Some st)
  show ?thesis
  proof (cases "active st")
    case False
    with Some show ?thesis by (simp add: interpolationFrame_def stopInterpolationLoop_store)
  next
    case True
    let ?eased = "easeOutCubic (frameProgress (now - startTime st) (duration_ms st))"
    let ?ps = "zip (parametersToInterpolate st) uids"
    let ?te1 = "foldl (interpolateParameter st ?eased now) te ?ps"
    have "\<forall>p \<in> set ?ps. snd p \<notin> fst ` set (snapshots (snapshotEngine te))"
    proof
      fix p assume "p \<in> set ?ps"
      then have "(fst p, snd p) \<in> set (zip (parametersToInterpolate st) uids)" by simp
      then have "snd p \<in> set uids" by (rule set_zip_rightD)
      with assms show "snd p \<notin> fst ` set (snapshots (snapshotEngine te))" by blast
    qed
    then have te1: "snapshots (snapshotEngine ?te1) = snapshots (snapshotEngine te)"
      by (rule foldl_interpolateParameter_keeps_snapshots)
    show ?thesis
      using Some True te1
      by (simp add: interpolationFrame_def Let_def stopInterpolationLoop_store
          split: option.splits)
  qed
qed

section \<open>Verification: Drop\<close>

text \<open>
  Triggering a Drop arms a timer with the Drop closure under the next handle of the host,
  and leaves the store and the sink alone.
\<close>

lemma executeDrop_pending:
  assumes "nextTimerId te \<notin> fst ` set (timeouts te)"
  shows "\<exists>delayMs. map_of (timeouts (executeDrop te snapshot settings now)) (nextTimerId te)
           = Some (DropCallback snapshot (repeatMode settings), delayMs)"
    and "snapshotEngine (executeDrop te snapshot settings now) = snapshotEngine te"
    and "midiSendCallback (executeDrop te snapshot settings now) = midiSendCallback te"
    and "sink (executeDrop te snapshot settings now) = sink te"
proof -
  let ?c = "cancelActiveTransition te"
  have n: "nextTimerId ?c = nextTimerId te"
    and s: "snapshotEngine ?c = snapshotEngine te"
    and m: "midiSendCallback ?c = midiSendCallback te"
    and k: "sink ?c = sink te"
    by (simp_all add: cancelActiveTransition_def stopInterpolationLoop_def clearTimeout_def
        clearInterval_def Let_def split: option.splits)
  have "timeouts ?c = (case transitionTimerId te of
                         Some timerId \<Rightarrow> AList.delete timerId (timeouts te)
                       | None \<Rightarrow> timeouts te)"
    by (simp add: cancelActiveTransition_def stopInterpolationLoop_def clearTimeout_def
        clearInterval_def Let_def split: option.splits)
  then have "fst ` set (timeouts ?c) \<subseteq> fst ` set (timeouts te)"
    using dom_delete_subset [of _ "timeouts te"]
    by (cases "transitionTimerId te") simp_all
  with assms have fresh: "nextTimerId te \<notin> fst ` set (timeouts ?c)" by blast
  then have none: "map_of (timeouts ?c) (nextTimerId te) = None"
    by (simp add: map_of_eq_None_iff)
  show "\<exists>delayMs. map_of (timeouts (executeDrop te snapshot settings now)) (nextTimerId te)
           = Some (DropCallback snapshot (repeatMode settings), delayMs)"
    using none by (simp add: executeDrop_def setTimeout_def Let_def n map_add_def)
  show "snapshotEngine (executeDrop te snapshot settings now) = snapshotEngine te"
    by (simp add: executeDrop_def setTimeout_def Let_def s)
  show "midiSendCallback (executeDrop te snapshot settings now) = midiSendCallback te"
    by (simp add: executeDrop_def setTimeout_def Let_def m)
  show "sink (executeDrop te snapshot settings now) = sink te"
    by (simp add: executeDrop_def setTimeout_def Let_def k)
qed

text \<open>The flag \<open>repeatMode\<close> has no effect on what a firing Drop does.\<close>

lemma repeat_flag_ignored:
  "executeDropImmediate te snapshot True = executeDropImmediate te snapshot False"
  by (simp add: executeDropImmediate_def Let_def)

lemma sendMidiMessage_on:
  "midiSendCallback te \<Longrightarrow> sendMidiMessage te m = te\<lparr>sink := sink te @ [m]\<rparr>"
  by (simp add: sendMidiMessage_def)

lemma foldl_sendMidiMessage:
  "midiSendCallback te \<Longrightarrow> foldl sendMidiMessage te ms = te\<lparr>sink := sink te @ ms\<rparr>"
proof (induction ms arbitrary: te)
  case Nil
  then show ?case by simp
next
  case (Cons m ms)
  have "midiSendCallback (sendMidiMessage te m)"
    using Cons.prems by (simp add: sendMidiMessage_on)
  then have "foldl sendMidiMessage (sendMidiMessage te m) ms
             = (sendMidiMessage te m)\<lparr>sink := sink (sendMidiMessage te m) @ ms\<rparr>"
    by (rule Cons.IH)
  then show ?case using Cons.prems by (simp add: sendMidiMessage_on)
qed

lemma applyTarget_fields:
  "sink (applyTarget te t) = sink te"
  "timeouts (applyTarget te t) = timeouts te"
  "snapshots (snapshotEngine (applyTarget te t)) = snapshots (snapshotEngine te)"
  "map_of (currentValues (snapshotEngine (applyTarget te t)))
     = (map_of (currentValues (snapshotEngine te)))(fst t \<mapsto> max 0 (min 127 (snd t)))"
  by (simp_all add: applyTarget_def updateCurrentValue_def update_conv')

lemma setTarget_fields:
  "map_of (setTarget acc q)
     = (if isEnabled q then (map_of acc)(parameterId q \<mapsto> param_value q) else map_of acc)"
  "distinct (map fst acc) \<Longrightarrow> distinct (map fst (setTarget acc q))"
  by (simp_all add: setTarget_def update_conv' distinct_update)

lemma applyTarget_frame:
  "sink (foldl applyTarget te ts) = sink te
   \<and> timeouts (foldl applyTarget te ts) = timeouts te
   \<and> snapshots (snapshotEngine (foldl applyTarget te ts)) = snapshots (snapshotEngine te)"
  by (induction ts arbitrary: te) (simp_all add: applyTarget_fields)

lemma applyTarget_other:
  "p \<notin> fst ` set ts \<Longrightarrow>
   map_of (currentValues (snapshotEngine (foldl applyTarget te ts))) p
     = map_of (currentValues (snapshotEngine te)) p"
proof (induction ts arbitrary: te)
  case Nil
  then show ?case by simp
next
  case (Cons t ts)
  then have "p \<noteq> fst t" and "p \<notin> fst ` set ts" by auto
  then show ?case
    using Cons.IH [of "applyTarget te t"]
    by (simp add: applyTarget_fields)
qed

lemma applyTarget_sets:
  "distinct (map fst ts) \<Longrightarrow> map_of ts p = Some v \<Longrightarrow>
   map_of (currentValues (snapshotEngine (foldl applyTarget te ts))) p
     = Some (max 0 (min 127 v))"
proof (induction ts arbitrary: te)
  case Nil
  then show ?case by simp
next
  case (Cons t ts)
  show ?case
  proof (cases "fst t = p")
    case True
    with Cons.prems have v: "snd t = v" and out: "p \<notin> fst ` set ts"
      by (cases t, auto)+
    have "map_of (currentValues (snapshotEngine (foldl applyTarget (applyTarget te t) ts))) p
          = map_of (currentValues (snapshotEngine (applyTarget te t))) p"
      using out by (rule applyTarget_other)
    then show ?thesis
      using True v by (simp add: applyTarget_fields)
  next
    case False
    with Cons.prems have "distinct (map fst ts)" and "map_of ts p = Some v"
      by (cases t, auto)+
    then show ?thesis using Cons.IH [of "applyTarget te t"] by simp
  qed
qed

lemma setTarget_other:
  "\<forall>q \<in> set ps. parameterId q \<noteq> p \<Longrightarrow> map_of (foldl setTarget acc ps) p = map_of acc p"
  by (induction ps arbitrary: acc) (auto simp add: setTarget_fields)

lemma setTarget_distinct:
  "distinct (map fst acc) \<Longrightarrow> distinct (map fst (foldl setTarget acc ps))"
  by (induction ps arbitrary: acc) (simp_all add: setTarget_fields)

lemma others_of_unique:
  assumes "i < length ps"
    and "\<forall>j < length ps. j \<noteq> i \<longrightarrow> P (ps ! j)"
  shows "(\<forall>q \<in> set (take i ps). P q) \<and> (\<forall>q \<in> set (drop (Suc i) ps). P q)"
proof (intro conjI ballI)
  fix q assume "q \<in> set (take i ps)"
  then obtain j where "j < length (take i ps)" and "take i ps ! j = q"
    by (auto simp: in_set_conv_nth)
  then have "j < i" and "j < length ps" and "ps ! j = q" using assms(1) by auto
  with assms(2) show "P q" by auto
next
  fix q assume "q \<in> set (drop (Suc i) ps)"
  then obtain j where j: "j < length (drop (Suc i) ps)" and q: "drop (Suc i) ps ! j = q"
    by (auto simp: in_set_conv_nth)
  then have "Suc i + j < length ps" and "ps ! (Suc i + j) = q" by auto
  with assms(2) show "P q" by auto
qed

lemma targets_of_unique:
  assumes i: "i < length ps"
    and en: "isEnabled (ps ! i)"
    and uniq: "\<forall>j < length ps. j \<noteq> i \<longrightarrow> parameterId (ps ! j) \<noteq> parameterId (ps ! i)"
  shows "map_of (foldl setTarget [] ps) (parameterId (ps ! i)) = Some (param_value (ps ! i))"
proof -
  let ?p = "parameterId (ps ! i)"
  have split: "ps = take i ps @ ps ! i # drop (Suc i) ps"
    using i by (rule id_take_nth_drop)
  have rest: "\<forall>q \<in> set (drop (Suc i) ps). parameterId q \<noteq> ?p"
    using others_of_unique [OF i, of "\<lambda>q. parameterId q \<noteq> ?p"] uniq by blast
  have "foldl setTarget [] ps
        = foldl setTarget (setTarget (foldl setTarget [] (take i ps)) (ps ! i)) (drop (Suc i) ps)"
    by (subst split) (simp only: foldl_append foldl_Cons)
  then have "map_of (foldl setTarget [] ps) ?p
             = map_of (setTarget (foldl setTarget [] (take i ps)) (ps ! i)) ?p"
    using rest by (simp add: setTarget_other)
  then show ?thesis using en by (simp add: setTarget_fields)
qed

text \<open>The messages that one parameter adds to the list.\<close>

lemma pushParameterMessage_append:
  "pushParameterMessage acc q = acc @ pushParameterMessage [] q"
  by (simp add: pushParameterMessage_def split: option.splits)

lemma foldl_pushParameterMessage:
  "foldl pushParameterMessage acc ps = acc @ concat (map (pushParameterMessage []) ps)"
proof (induction ps arbitrary: acc)
  case Nil
  then show ?case by simp
next
  case (Cons q ps)
  have "foldl pushParameterMessage acc (q # ps)
        = foldl pushParameterMessage (pushParameterMessage acc q) ps" by simp
  also have "\<dots> = pushParameterMessage acc q @ concat (map (pushParameterMessage []) ps)"
    by (rule Cons.IH)
  also have "\<dots> = acc @ pushParameterMessage [] q @ concat (map (pushParameterMessage []) ps)"
    by (subst pushParameterMessage_append) simp
  finally show ?case by simp
qed

lemma count_concat_none:
  "\<forall>q \<in> set ps. m \<notin> set (f q) \<Longrightarrow> count_list (concat (map f ps)) m = 0"
  by (induction ps) simp_all

lemma push_registered:
  "isEnabled q \<Longrightarrow> parameterToMidiMessage (parameterId q) (param_value q) = Some m
   \<Longrightarrow> pushParameterMessage [] q = [m]"
  by (simp add: pushParameterMessage_def)

lemma push_not_m:
  "(isEnabled q \<longrightarrow> parameterToMidiMessage (parameterId q) (param_value q) \<noteq> Some m)
   \<Longrightarrow> m \<notin> set (pushParameterMessage [] q)"
  by (auto simp add: pushParameterMessage_def split: option.splits)

lemma parameter_messages_count:
  assumes i: "i < length ps"
    and en: "isEnabled (ps ! i)"
    and reg: "parameterToMidiMessage (parameterId (ps ! i)) (param_value (ps ! i)) = Some m"
  shows "1 \<le> count_list (foldl pushParameterMessage [] ps) m"
    and "\<forall>j < length ps. j \<noteq> i \<longrightarrow>
           (isEnabled (ps ! j) \<longrightarrow>
              parameterToMidiMessage (parameterId (ps ! j)) (param_value (ps ! j)) \<noteq> Some m)
         \<Longrightarrow> count_list (foldl pushParameterMessage [] ps) m = 1"
proof -
  let ?f = "pushParameterMessage []"
  have split: "ps = take i ps @ ps ! i # drop (Suc i) ps"
    using i by (rule id_take_nth_drop)
  have "concat (map ?f ps)
        = concat (map ?f (take i ps)) @ ?f (ps ! i) @ concat (map ?f (drop (Suc i) ps))"
    by (subst split) simp
  then have msgs: "foldl pushParameterMessage [] ps
        = concat (map ?f (take i ps)) @ [m] @ concat (map ?f (drop (Suc i) ps))"
    using en reg by (simp add: foldl_pushParameterMessage push_registered)
  show "1 \<le> count_list (foldl pushParameterMessage [] ps) m"
    by (simp add: msgs)
  assume others: "\<forall>j < length ps. j \<noteq> i \<longrightarrow>
           (isEnabled (ps ! j) \<longrightarrow>
              parameterToMidiMessage (parameterId (ps ! j)) (param_value (ps ! j)) \<noteq> Some m)"
  have "(\<forall>q \<in> set (take i ps). m \<notin> set (?f q)) \<and> (\<forall>q \<in> set (drop (Suc i) ps). m \<notin> set (?f q))"
    using others_of_unique [OF i, of "\<lambda>q. isEnabled q \<longrightarrow>
              parameterToMidiMessage (parameterId q) (param_value q) \<noteq> Some m"] others
    by (simp add: push_not_m)
  then have "count_list (concat (map ?f (take i ps))) m = 0"
    and "count_list (concat (map ?f (drop (Suc i) ps))) m = 0"
    by (simp_all add: count_concat_none)
  then show "count_list (foldl pushParameterMessage [] ps) m = 1"
    by (simp add: msgs)
qed

lemma executeDropImmediate_result:
  assumes "midiSendCallback te"
  shows "sink (executeDropImmediate te snapshot repeat)
           = sink te @ getSnapshotMidiMessages (snapshotEngine te) (snapshot_id snapshot)"
    and "\<exists>te2. snapshotEngine (executeDropImmediate te snapshot repeat)
                 = snapshotEngine
                     (foldl applyTarget te2
                        (getInterpolationTargets (snapshotEngine te) (snapshot_id snapshot)))"
    and "scheduledTransition (executeDropImmediate te snapshot repeat) = None"
    and "timeouts (executeDropImmediate te snapshot repeat) = timeouts te"
proof -
  let ?msgs = "getSnapshotMidiMessages (snapshotEngine te) (snapshot_id snapshot)"
  let ?ts = "getInterpolationTargets (snapshotEngine te) (snapshot_id snapshot)"
  let ?te2 = "te\<lparr>sink := sink te @ ?msgs\<rparr>"
  let ?te3 = "foldl applyTarget ?te2 ?ts"
  have sent: "foldl sendMidiMessage te ?msgs = ?te2"
    using assms by (rule foldl_sendMidiMessage)
  have res: "executeDropImmediate te snapshot repeat
             = (if transitionCompleteCallback ?te3
                then ?te3\<lparr>completions := completions ?te3 @ [snapshot]\<rparr>
                else ?te3)\<lparr>scheduledTransition := None\<rparr>"
    unfolding executeDropImmediate_def Let_def sent by simp
  show "sink (executeDropImmediate te snapshot repeat) = sink te @ ?msgs"
    unfolding res using applyTarget_frame [of ?te2 ?ts] by simp
  show "\<exists>te2. snapshotEngine (executeDropImmediate te snapshot repeat)
                = snapshotEngine (foldl applyTarget te2 ?ts)"
    unfolding res by (rule exI [of _ ?te2]) simp
  show "scheduledTransition (executeDropImmediate te snapshot repeat) = None"
    unfolding res by simp
  show "timeouts (executeDropImmediate te snapshot repeat) = timeouts te"
    unfolding res using applyTarget_frame [of ?te2 ?ts] by simp
qed

text \<open>
  No two entries of the registry share message type, channel and controller number.  So two
  parameter entries encode to the same wire message only when their values are equal and
  their identifiers are equal up to the case of the letters.
\<close>

lemma allParams_as_list: "allParams = map_of (generateTrackParameters @ OPXY_PARAMETERS)"
  by (simp add: allParams_def)

lemma registry_wire_distinct:
  "distinct (map (\<lambda>e. (param_type (snd e), param_channel (snd e), param_cc (snd e)))
               (generateTrackParameters @ OPXY_PARAMETERS))"
  by code_simp

lemma same_message_same_parameter:
  assumes "parameterToMidiMessage p v = Some m" and "parameterToMidiMessage q w = Some m"
  shows "toUpperCase q = toUpperCase p \<and> w = v"
proof -
  let ?L = "generateTrackParameters @ OPXY_PARAMETERS"
  let ?f = "\<lambda>e::string \<times> OpxyParameter.
              (param_type (snd e), param_channel (snd e), param_cc (snd e))"
  from assms(1) obtain d1 where d1: "map_of ?L (toUpperCase p) = Some d1"
    and m1: "m = \<lparr> msg_type = param_type d1, channel = param_channel d1, msg_value = v,
                    cc = param_cc d1, note_number = None, velocity = None, nrpnMsb = None,
                    nrpnLsb = None \<rparr>"
    by (auto simp add: parameterToMidiMessage_def allParams_as_list split: option.splits)
  from assms(2) obtain d2 where d2: "map_of ?L (toUpperCase q) = Some d2"
    and m2: "m = \<lparr> msg_type = param_type d2, channel = param_channel d2, msg_value = w,
                    cc = param_cc d2, note_number = None, velocity = None, nrpnMsb = None,
                    nrpnLsb = None \<rparr>"
    by (auto simp add: parameterToMidiMessage_def allParams_as_list split: option.splits)
  from m1 m2 have same: "?f (toUpperCase p, d1) = ?f (toUpperCase q, d2)" and vw: "w = v"
    by simp_all
  have "inj_on ?f (set ?L)"
    using registry_wire_distinct by (simp only: distinct_map)
  moreover note same
  moreover have "(toUpperCase p, d1) \<in> set ?L" using d1 by (rule map_of_SomeD)
  moreover have "(toUpperCase q, d2) \<in> set ?L" using d2 by (rule map_of_SomeD)
  ultimately have "(toUpperCase p, d1) = (toUpperCase q, d2)"
    by (rule inj_onD)
  with vw show ?thesis by simp
qed

text \<open>
  C1 (amended).  Let a Drop be pending for a snapshot that is stored, let the sink be
  installed, and let \<open>(p, v, enabled = true)\<close> be an entry of the stored snapshot with \<open>p\<close>
  registered, \<open>p\<close> occurring once in the parameter list and \<open>v\<close> in \<open>[0,127]\<close>.  When the Drop
  fires, the current value of \<open>p\<close> becomes \<open>v\<close>, and the messages delivered during the firing
  are the outbound messages of the snapshot, among which the message encoding \<open>(p, v)\<close>
  occurs at least once.  It occurs exactly once when no other enabled entry of the snapshot
  encodes to the same message and no one-shot message of the snapshot equals it.
\<close>

theorem C1_drop_applies_parameter:
  assumes pending: "map_of (timeouts te) timerId = Some (DropCallback snapshot repeat, delayMs)"
    and stored: "map_of (snapshots (snapshotEngine te)) (snapshot_id snapshot) = Some s"
    and i: "i < length (parameters s)"
    and entry: "parameters s ! i = \<lparr> parameterId = p, param_value = v, isEnabled = True \<rparr>"
    and registered: "parameterToMidiMessage p v = Some m"
    and once: "\<forall>j < length (parameters s). j \<noteq> i \<longrightarrow> parameterId (parameters s ! j) \<noteq> p"
    and range: "0 \<le> v \<and> v \<le> 127"
    and sinkOn: "midiSendCallback te"
  shows "getCurrentValue (snapshotEngine (fireTimeout te timerId now)) p = Some v
       \<and> sink (fireTimeout te timerId now)
           = sink te @ deliveredBetween te (fireTimeout te timerId now)
       \<and> deliveredBetween te (fireTimeout te timerId now)
           = getSnapshotMidiMessages (snapshotEngine te) (snapshot_id snapshot)
       \<and> 1 \<le> count_list (deliveredBetween te (fireTimeout te timerId now)) m
       \<and> ((\<forall>j < length (parameters s). j \<noteq> i \<longrightarrow> isEnabled (parameters s ! j) \<longrightarrow>
              parameterToMidiMessage (parameterId (parameters s ! j))
                (param_value (parameters s ! j)) \<noteq> Some m)
           \<and> (\<forall>oneShots. oneShotMessages s = Some oneShots \<longrightarrow> m \<notin> set oneShots)
          \<longrightarrow> count_list (deliveredBetween te (fireTimeout te timerId now)) m = 1)"
proof -
  let ?sid = "snapshot_id snapshot"
  let ?ps = "parameters s"
  let ?fired = "fireTimeout te timerId now"
  define te1 where "te1 = te\<lparr>timeouts := AList.delete timerId (timeouts te)\<rparr>"
  have fire: "?fired = executeDropImmediate te1 snapshot repeat"
    using pending by (simp add: fireTimeout_def te1_def)
  have te1: "snapshotEngine te1 = snapshotEngine te" "sink te1 = sink te" "midiSendCallback te1"
    using sinkOn by (simp_all add: te1_def)
  note res = executeDropImmediate_result [OF te1(3), of snapshot repeat, unfolded te1(1,2)]
  define msgs where "msgs = getSnapshotMidiMessages (snapshotEngine te) ?sid"
  have sink: "sink ?fired = sink te @ msgs"
    unfolding fire msgs_def by (rule res(1))
  have delivered: "deliveredBetween te ?fired = msgs"
    by (simp add: deliveredBetween_def sink)
  have pi: "parameterId (?ps ! i) = p" "param_value (?ps ! i) = v" "isEnabled (?ps ! i)"
    by (simp_all add: entry)
  \<comment> \<open>the current value\<close>
  have ts: "getInterpolationTargets (snapshotEngine te) ?sid = foldl setTarget [] ?ps"
    using stored by (simp add: getInterpolationTargets_def)
  have "map_of (foldl setTarget [] ?ps) (parameterId (?ps ! i)) = Some (param_value (?ps ! i))"
    using i pi(3) once unfolding pi(1) [symmetric] by (intro targets_of_unique) simp_all
  then have target: "map_of (foldl setTarget [] ?ps) p = Some v"
    by (simp add: pi)
  have dist: "distinct (map fst (foldl setTarget [] ?ps))"
    by (rule setTarget_distinct) simp
  from res(2) obtain te2 where
    "snapshotEngine ?fired = snapshotEngine (foldl applyTarget te2 (foldl setTarget [] ?ps))"
    unfolding fire ts by blast
  then have "map_of (currentValues (snapshotEngine ?fired)) p = Some (max 0 (min 127 v))"
    using applyTarget_sets [OF dist target, of te2] by simp
  then have current: "getCurrentValue (snapshotEngine ?fired) p = Some v"
    using range by (simp add: getCurrentValue_def)
  \<comment> \<open>the messages\<close>
  define tail where "tail = (case oneShotMessages s of Some oneShots \<Rightarrow> oneShots | None \<Rightarrow> [])"
  have msgs: "msgs = foldl pushParameterMessage [] ?ps @ tail"
    using stored
    by (simp add: msgs_def getSnapshotMidiMessages_def tail_def Let_def split: option.splits)
  have reg: "parameterToMidiMessage (parameterId (?ps ! i)) (param_value (?ps ! i)) = Some m"
    using registered by (simp add: pi)
  have atleast: "1 \<le> count_list msgs m"
    using parameter_messages_count(1) [OF i pi(3) reg] by (simp add: msgs)
  have exactly: "count_list msgs m = 1"
    if others: "\<forall>j < length ?ps. j \<noteq> i \<longrightarrow> isEnabled (?ps ! j) \<longrightarrow>
              parameterToMidiMessage (parameterId (?ps ! j)) (param_value (?ps ! j)) \<noteq> Some m"
      and shots: "\<forall>oneShots. oneShotMessages s = Some oneShots \<longrightarrow> m \<notin> set oneShots"
  proof -
    have "count_list (foldl pushParameterMessage [] ?ps) m = 1"
      using others by (intro parameter_messages_count(2) [OF i pi(3) reg]) blast
    moreover have "m \<notin> set tail"
      using shots by (simp add: tail_def split: option.splits)
    then have "count_list tail m = 0" by (simp add: count_list_0_iff)
    ultimately show ?thesis by (simp add: msgs)
  qed
  show ?thesis
    unfolding delivered
    using current sink atleast exactly msgs_def by blast
qed

text \<open>
  The claim as stated fails for \<open>snapshotA\<close>: its only parameter entry is the registered
  \<open>tempo\<close> at 64, enabled, and its one-shot list holds the same control change.  When the
  Drop fires, the sink receives that message twice.
\<close>

theorem C1_counterexample:
  "map_of (snapshots (snapshotEngine (executeDrop exampleEngine snapshotA (dropSettings False) 0)))
     ''A'' = Some snapshotA
   \<and> parameters snapshotA = [\<lparr> parameterId = ''tempo'', param_value = 64, isEnabled = True \<rparr>]
   \<and> parameterToMidiMessage ''tempo'' 64 = Some tempoMessage64
   \<and> midiSendCallback (executeDrop exampleEngine snapshotA (dropSettings False) 0)
   \<and> map fst (timeouts (executeDrop exampleEngine snapshotA (dropSettings False) 0)) = [0]
   \<and> count_list
        (deliveredBetween (executeDrop exampleEngine snapshotA (dropSettings False) 0)
           (fireTimeout (executeDrop exampleEngine snapshotA (dropSettings False) 0) 0 2000))
        tempoMessage64 = 2"
  by code_simp

theorem C1_drop_applies_parameter_witness:
  "getCurrentValue
     (snapshotEngine
        (fireTimeout (executeDrop exampleEngine snapshotB (dropSettings False) 0) 0 2000))
     ''track_1_volume'' = Some 100
   \<and> count_list
        (deliveredBetween (executeDrop exampleEngine snapshotB (dropSettings False) 0)
           (fireTimeout (executeDrop exampleEngine snapshotB (dropSettings False) 0) 0 2000))
        volumeMessage100 = 1"
proof -
  let ?te = "executeDrop exampleEngine snapshotB (dropSettings False) 0"
  have pending: "map_of (timeouts ?te) 0 = Some (DropCallback snapshotB False, 2000)"
    by code_simp
  have stored: "map_of (snapshots (snapshotEngine ?te)) (snapshot_id snapshotB) = Some snapshotB"
    by code_simp
  have ps: "parameters snapshotB
            = [\<lparr> parameterId = ''track_1_volume'', param_value = 100, isEnabled = True \<rparr>]"
    by (simp add: snapshotB_def)
  have i: "0 < length (parameters snapshotB)" by (simp add: ps)
  have entry: "parameters snapshotB ! 0
               = \<lparr> parameterId = ''track_1_volume'', param_value = 100, isEnabled = True \<rparr>"
    by (simp add: ps)
  have registered: "parameterToMidiMessage ''track_1_volume'' 100 = Some volumeMessage100"
    by code_simp
  have once: "\<forall>j < length (parameters snapshotB). j \<noteq> 0 \<longrightarrow>
                parameterId (parameters snapshotB ! j) \<noteq> ''track_1_volume''"
    by (simp add: ps)
  have range: "(0::int) \<le> 100 \<and> (100::int) \<le> 127" by simp
  have sinkOn: "midiSendCallback ?te" by code_simp
  have others: "\<forall>j < length (parameters snapshotB). j \<noteq> 0 \<longrightarrow>
                  isEnabled (parameters snapshotB ! j) \<longrightarrow>
                  parameterToMidiMessage (parameterId (parameters snapshotB ! j))
                    (param_value (parameters snapshotB ! j)) \<noteq> Some volumeMessage100"
    by (simp add: ps)
  have shots: "\<forall>oneShots. oneShotMessages snapshotB = Some oneShots
                 \<longrightarrow> volumeMessage100 \<notin> set oneShots"
    by (simp add: snapshotB_def)
  from C1_drop_applies_parameter
         [OF pending stored i entry registered once range sinkOn, of 2000] others shots
  show ?thesis by blast
qed

text \<open>
  C8. The claim is that a Drop triggered with \<open>repeat = true\<close> schedules a new Drop when it
  fires.  The code does not: a Drop of \<open>snapshotB\<close> with cycle length 1 and \<open>repeat = true\<close>,
  triggered on a fresh clock at time 0, arms one timer; when the timer fires the message of
  the snapshot is delivered, and afterwards no timer of either kind is pending, no
  transition is scheduled and no interpolation is in progress.
\<close>

theorem C8_repeat_not_rescheduled:
  "repeatMode (dropSettings True)
   \<and> map fst (timeouts (executeDrop exampleEngine snapshotB (dropSettings True) 0)) = [0]
   \<and> sink (fireTimeout (executeDrop exampleEngine snapshotB (dropSettings True) 0) 0 2000)
       = [volumeMessage100]
   \<and> timeouts (fireTimeout (executeDrop exampleEngine snapshotB (dropSettings True) 0) 0 2000)
       = []
   \<and> scheduledTransition
        (fireTimeout (executeDrop exampleEngine snapshotB (dropSettings True) 0) 0 2000)
       = None
   \<and> interpolationState
        (fireTimeout (executeDrop exampleEngine snapshotB (dropSettings True) 0) 0 2000)
       = None
   \<and> intervals
        (fireTimeout (executeDrop exampleEngine snapshotB (dropSettings True) 0) 0 2000)
       = []"
  by code_simp

end
